theory Spec2Isabelle
  imports Complex_Main
begin

section \<open>Data model\<close>

text \<open>
  The entities of \<^verbatim>\<open>@/types/attendance\<close> as the code uses them. A JavaScript string is a
  \<^typ>\<open>string\<close>, an optional field an \<^typ>\<open>'a option\<close>. Counts are JavaScript numbers that
  only ever hold integers (array lengths and their differences), so they are \<^typ>\<open>int\<close>;
  the percentage is a JavaScript number with a fraction, a double, held as the rational
  number it denotes (\<^typ>\<open>rat\<close>) and computed with the rounding arithmetic of the next
  section.
  Field names that several interfaces share carry a prefix, since a HOL theory has one
  name space for all record fields.
\<close>

datatype Status = present | absent

record Subject =
  s_id :: string
  s_name :: string
  colorIndex :: int
  s_totalClasses :: int
  s_attendedClasses :: int
  s_attendancePercentage :: rat

record TimetableEntry =
  t_id :: string
  day :: string
  time :: string
  subject :: string
  room :: "string option"
  instructor :: "string option"

record AttendanceRecord =
  a_id :: string
  subjectId :: string
  date :: string
  status :: Status
  timetableEntryId :: string

record AttendanceStats =
  totalClasses :: int
  attendedClasses :: int
  missedClasses :: int
  attendancePercentage :: rat

section \<open>JavaScript numbers\<close>

text \<open>
  A JavaScript number is an IEEE 754 double. A finite double is a rational number, and an
  arithmetic operation returns the exact result rounded to the nearest double, ties going
  to the one with an even significand. \<open>toDouble\<close> is that rounding: the result has a
  significand of 53 bits, \<open>n\<close> with \<open>2 ^ 52 \<le> n \<le> 2 ^ 53\<close>, scaled by a power of two.
  The exponent is not limited: the numbers rounded in this program are quotients of array
  lengths and their products with 100, which lie between \<open>2 ^ (- 32)\<close> and 100, far
  from overflow and from the subnormal range. Array lengths are below \<open>2 ^ 32\<close>, so the
  counts themselves are doubles without rounding.
\<close>

text \<open>The number of binary digits of \<open>n\<close> after the first, that is the integer part of its
  binary logarithm.\<close>

fun ilog2 :: "nat \<Rightarrow> nat" where
  "ilog2 n = (if n < 2 then 0 else Suc (ilog2 (n div 2)))"

declare ilog2.simps [simp del]

text \<open>The binary exponent of a positive rational \<open>x\<close>: the \<open>e\<close> with
  \<open>2 powi e \<le> x < 2 powi (e + 1)\<close>.\<close>

definition exponentOf :: "rat \<Rightarrow> int" where
  "exponentOf x =
     (let (p, q) = quotient_of x;
          d = int (ilog2 (nat p)) - int (ilog2 (nat q))
      in if 2 powi d \<le> x then d else d - 1)"

definition roundHalfEven :: "rat \<Rightarrow> int" where
  "roundHalfEven m =
     (let f = \<lfloor>m\<rfloor>; r = m - of_int f
      in if r < 1 / 2 then f else if 1 / 2 < r then f + 1
         else if even f then f else f + 1)"

definition toDouble :: "rat \<Rightarrow> rat" where
  "toDouble x =
     (if x = 0 then 0
      else let e = exponentOf \<bar>x\<bar> - 52;
               n = roundHalfEven (\<bar>x\<bar> / 2 powi e)
           in sgn x * of_int n * 2 powi e)"

text \<open>The operators \<^verbatim>\<open>/\<close> and \<^verbatim>\<open>*\<close> on doubles. The one division of the program is
  guarded by \<^verbatim>\<open>totalClasses > 0\<close>, so a zero divisor does not occur.\<close>

definition jsDiv :: "rat \<Rightarrow> rat \<Rightarrow> rat" where
  "jsDiv x y = toDouble (x / y)"

definition jsMul :: "rat \<Rightarrow> rat \<Rightarrow> rat" where
  "jsMul x y = toDouble (x * y)"

section \<open>The persistence store (storage.ts)\<close>

text \<open>
  \<^verbatim>\<open>localStorage\<close> restricted to the keys the application touches: the three
  \<^verbatim>\<open>STORAGE_KEYS\<close> of storage.ts and the key \<^verbatim>\<open>notifications_scheduled\<close> that the
  notification settings write. A field is \<^term>\<open>None\<close> when the key is absent
  (\<^verbatim>\<open>getItem\<close> returns null). \<^verbatim>\<open>JSON.stringify\<close> followed by \<^verbatim>\<open>JSON.parse\<close> is the
  identity on these arrays of flat objects, so a stored value is the list itself.
\<close>

record Storage =
  attendflow_subjects :: "Subject list option"
  attendflow_timetable :: "TimetableEntry list option"
  attendflow_attendance :: "AttendanceRecord list option"
  notifications_scheduled :: "string option"

definition saveSubjects :: "Subject list \<Rightarrow> Storage \<Rightarrow> Storage" where
  "saveSubjects subjects ls = ls\<lparr>attendflow_subjects := Some subjects\<rparr>"

definition getSubjects :: "Storage \<Rightarrow> Subject list" where
  "getSubjects ls = (case attendflow_subjects ls of Some data \<Rightarrow> data | None \<Rightarrow> [])"

definition saveTimetable :: "TimetableEntry list \<Rightarrow> Storage \<Rightarrow> Storage" where
  "saveTimetable timetable ls = ls\<lparr>attendflow_timetable := Some timetable\<rparr>"

definition getTimetable :: "Storage \<Rightarrow> TimetableEntry list" where
  "getTimetable ls = (case attendflow_timetable ls of Some data \<Rightarrow> data | None \<Rightarrow> [])"

definition saveAttendanceRecords :: "AttendanceRecord list \<Rightarrow> Storage \<Rightarrow> Storage" where
  "saveAttendanceRecords records ls = ls\<lparr>attendflow_attendance := Some records\<rparr>"

definition getAttendanceRecords :: "Storage \<Rightarrow> AttendanceRecord list" where
  "getAttendanceRecords ls = (case attendflow_attendance ls of Some data \<Rightarrow> data | None \<Rightarrow> [])"

definition calculateAttendanceStats :: "Storage \<Rightarrow> AttendanceStats" where
  "calculateAttendanceStats ls =
     (let records = getAttendanceRecords ls;
          totalClasses = int (length records);
          attendedClasses = int (length (filter (\<lambda>r. status r = present) records));
          missedClasses = totalClasses - attendedClasses;
          attendancePercentage =
            (if totalClasses > 0
             then jsMul (jsDiv (of_int attendedClasses) (of_int totalClasses)) 100 else 0)
      in \<lparr>totalClasses = totalClasses, attendedClasses = attendedClasses,
          missedClasses = missedClasses, attendancePercentage = attendancePercentage\<rparr>)"

definition getSubjectAttendance :: "Storage \<Rightarrow> string \<Rightarrow> AttendanceStats" where
  "getSubjectAttendance ls sid =
     (let records = filter (\<lambda>r. subjectId r = sid) (getAttendanceRecords ls);
          totalClasses = int (length records);
          attendedClasses = int (length (filter (\<lambda>r. status r = present) records));
          missedClasses = totalClasses - attendedClasses;
          attendancePercentage =
            (if totalClasses > 0
             then jsMul (jsDiv (of_int attendedClasses) (of_int totalClasses)) 100 else 0)
      in \<lparr>totalClasses = totalClasses, attendedClasses = attendedClasses,
          missedClasses = missedClasses, attendancePercentage = attendancePercentage\<rparr>)"

text \<open>\<^verbatim>\<open>Object.values(STORAGE_KEYS).forEach(key => localStorage.removeItem(key))\<close>: the
  three keys of \<^verbatim>\<open>STORAGE_KEYS\<close>, in their order.\<close>

definition clearAllData :: "Storage \<Rightarrow> Storage" where
  "clearAllData ls =
     ls\<lparr>attendflow_subjects := None, attendflow_timetable := None,
        attendflow_attendance := None\<rparr>"

section \<open>Classes still needed for 75 percent (Subjects page)\<close>

text \<open>\<^verbatim>\<open>calculateRequiredClasses\<close>. The quotient under \<^verbatim>\<open>Math.ceil\<close> is taken in exact
  arithmetic.\<close>

definition calculateRequiredClasses :: "Subject \<Rightarrow> int" where
  "calculateRequiredClasses subj =
     (let requiredPercentage = 75;
          totalClasses = s_totalClasses subj;
          attendedClasses = s_attendedClasses subj
      in if totalClasses = 0 then 0
         else let minRequired = \<lceil>(requiredPercentage * real_of_int totalClasses) / 100\<rceil>;
                  stillNeeded = max 0 (minRequired - attendedClasses)
              in stillNeeded)"

section \<open>The notification flag (notification settings)\<close>

text \<open>
  The effect of \<^verbatim>\<open>toggleNotifications\<close> on \<^verbatim>\<open>localStorage\<close>. The permission string is the
  component's \<^verbatim>\<open>notificationPermission\<close>. \<open>scheduled\<close> says whether the awaited
  \<^verbatim>\<open>scheduleDailyNotifications\<close> resolved (the \<^verbatim>\<open>catch\<close> branch writes nothing), and
  \<open>cleared\<close> whether the awaited \<^verbatim>\<open>clearScheduledNotifications\<close> resolved: when it
  rejects, the function ends there and the write after it does not happen.
\<close>

definition toggleNotifications ::
  "bool \<Rightarrow> string \<Rightarrow> bool \<Rightarrow> bool \<Rightarrow> Storage \<Rightarrow> Storage"
where
  "toggleNotifications enabled notificationPermission scheduled cleared ls =
     (if enabled \<and> notificationPermission \<noteq> ''granted'' then ls
      else if enabled then
        (if scheduled then ls\<lparr>notifications_scheduled := Some ''true''\<rparr> else ls)
      else
        (if cleared then ls\<lparr>notifications_scheduled := Some ''false''\<rparr> else ls))"

section \<open>JavaScript string primitives\<close>

text \<open>
  A \<^typ>\<open>char\<close> stands for a UTF-16 code unit below 256, so the model covers texts in
  the Latin-1 range. The functions below are the standard ones restricted to that range.
\<close>

text \<open>The white space and line terminator characters of the range: what \<^verbatim>\<open>trim\<close>
  strips and what \<^verbatim>\<open>\s\<close> matches.\<close>

definition whiteSpace :: string where
  "whiteSpace = [CHR 0x09, CHR 0x0A, CHR 0x0B, CHR 0x0C, CHR 0x0D, CHR 0x20, CHR 0xA0]"

definition isWhiteSpace :: "char \<Rightarrow> bool" where
  "isWhiteSpace c \<longleftrightarrow> c \<in> set whiteSpace"

definition trim :: "string \<Rightarrow> string" where
  "trim s = rev (dropWhile isWhiteSpace (rev (dropWhile isWhiteSpace s)))"

definition toLowerCaseChar :: "char \<Rightarrow> char" where
  "toLowerCaseChar c =
     (let n = (of_char c :: nat)
      in if (65 \<le> n \<and> n \<le> 90) \<or> (192 \<le> n \<and> n \<le> 222 \<and> n \<noteq> 215)
         then char_of (n + 32) else c)"

definition toLowerCase :: "string \<Rightarrow> string" where
  "toLowerCase s = map toLowerCaseChar s"

text \<open>
  Upper-casing one code unit. In the Latin-1 range three letters have no single 8-bit
  upper-case form (\<open>0xB5\<close>, \<open>0xDF\<close>, \<open>0xFF\<close>); they are left as they are. The parser
  upper-cases the first letter of a weekday name, and the matcher below compares upper-case
  forms under the \<^verbatim>\<open>i\<close> flag.
\<close>

definition toUpperCaseChar :: "char \<Rightarrow> char" where
  "toUpperCaseChar c =
     (let n = (of_char c :: nat)
      in if (97 \<le> n \<and> n \<le> 122) \<or> (224 \<le> n \<and> n \<le> 254 \<and> n \<noteq> 247)
         then char_of (n - 32) else c)"

fun includesStr :: "string \<Rightarrow> string \<Rightarrow> bool" where
  "includesStr [] sub = (sub = [])"
| "includesStr (c # cs) sub = (take (length sub) (c # cs) = sub \<or> includesStr cs sub)"

fun join :: "string \<Rightarrow> string list \<Rightarrow> string" where
  "join sep [] = []"
| "join sep [x] = x"
| "join sep (x # y # ys) = x @ sep @ join sep (y # ys)"

text \<open>\<^verbatim>\<open>String(n)\<close> for a non-negative integer: its decimal digits.\<close>

definition digitChar :: "nat \<Rightarrow> char" where
  "digitChar d = char_of (48 + d)"

fun numberToString :: "nat \<Rightarrow> string" where
  "numberToString n =
     (if n < 10 then [digitChar n] else numberToString (n div 10) @ [digitChar (n mod 10)])"

declare numberToString.simps [simp del]

text \<open>\<^verbatim>\<open>Array.prototype.sort\<close> with a comparator is a stable sort; for a comparator
  that is a consistent ordering every stable sort returns the same array, and insertion
  from the right is one.\<close>

fun insertBy :: "('a \<Rightarrow> 'a \<Rightarrow> int) \<Rightarrow> 'a \<Rightarrow> 'a list \<Rightarrow> 'a list" where
  "insertBy cmp x [] = [x]"
| "insertBy cmp x (y # ys) = (if cmp x y \<le> 0 then x # y # ys else y # insertBy cmp x ys)"

definition sortBy :: "('a \<Rightarrow> 'a \<Rightarrow> int) \<Rightarrow> 'a list \<Rightarrow> 'a list" where
  "sortBy cmp xs = foldr (insertBy cmp) xs []"

section \<open>Regular expressions\<close>

text \<open>
  The regular expressions of the spreadsheet parser, as a datatype, and a backtracking
  matcher for them with the semantics of JavaScript's: alternatives are tried from the
  left, quantifiers are greedy, and the first way to match that is found is the match.
  \<open>Chars\<close> is a character class given by its members (a literal character is a class of
  one), \<open>NotChars\<close> a negated class, \<open>Star\<close> the quantifier \<^verbatim>\<open>*\<close>, \<open>WordBoundary\<close> the
  assertion \<^verbatim>\<open>\b\<close> and \<open>EndOfInput\<close> the assertion \<^verbatim>\<open>$\<close> (no pattern has the \<^verbatim>\<open>m\<close> flag).
  The quantifiers \<^verbatim>\<open>+\<close> and \<^verbatim>\<open>?\<close> and the counted ones are written with these. A capture
  group does not change what matches and has no constructor; where the code reads a
  group, the model cuts it out of the matched text.
\<close>

datatype regex =
    Chars "char list"
  | NotChars "char list"
  | Eps
  | Seq regex regex
  | Alt regex regex
  | Star regex
  | WordBoundary
  | EndOfInput

definition OneOrMore :: "regex \<Rightarrow> regex" where
  "OneOrMore r = Seq r (Star r)"

definition Optional :: "regex \<Rightarrow> regex" where
  "Optional r = Alt r Eps"

fun lit :: "string \<Rightarrow> regex" where
  "lit [] = Eps"
| "lit [c] = Chars [c]"
| "lit (c # d # cs) = Seq (Chars [c]) (lit (d # cs))"

fun seqs :: "regex list \<Rightarrow> regex" where
  "seqs [] = Eps"
| "seqs [r] = r"
| "seqs (r # q # rs) = Seq r (seqs (q # rs))"

fun alts :: "regex list \<Rightarrow> regex" where
  "alts [] = Chars []"
| "alts [r] = r"
| "alts (r # q # rs) = Alt r (alts (q # rs))"

definition repeatN :: "nat \<Rightarrow> regex \<Rightarrow> regex" where
  "repeatN n r = seqs (replicate n r)"

definition upperAZ :: string where
  "upperAZ = ''ABCDEFGHIJKLMNOPQRSTUVWXYZ''"

definition lowerAZ :: string where
  "lowerAZ = ''abcdefghijklmnopqrstuvwxyz''"

definition digits :: string where
  "digits = ''0123456789''"

text \<open>A position in the input: the character before it, if any, and the text from it on.\<close>

type_synonym rstate = "char option \<times> string"

definition isWordChar :: "char \<Rightarrow> bool" where
  "isWordChar c \<longleftrightarrow> c \<in> set (lowerAZ @ upperAZ @ digits @ ''_'')"

definition atWordBoundary :: "rstate \<Rightarrow> bool" where
  "atWordBoundary x \<longleftrightarrow>
     (case fst x of None \<Rightarrow> False | Some c \<Rightarrow> isWordChar c)
       \<noteq> (case snd x of [] \<Rightarrow> False | c # cs \<Rightarrow> isWordChar c)"

text \<open>
  With the \<^verbatim>\<open>i\<close> flag a character matches a class member when both have the same
  canonical form, which is the upper-case form. The three code units that
  \<open>toUpperCaseChar\<close> leaves alone have canonical forms that no other 8-bit code unit
  shares, so comparing them unchanged gives the same answers.
\<close>

definition inClass :: "bool \<Rightarrow> char list \<Rightarrow> char \<Rightarrow> bool" where
  "inClass ignoreCase cs c \<longleftrightarrow>
     (if ignoreCase then toUpperCaseChar c \<in> set (map toUpperCaseChar cs) else c \<in> set cs)"

text \<open>
  \<open>matchAt ignoreCase r x\<close> lists the positions at which a match of \<open>r\<close> that starts at
  \<open>x\<close> can end, in the order in which backtracking reaches them. For \<open>Star\<close> the body is
  repeated as often as possible first, an iteration that consumes nothing is dropped as
  JavaScript drops it, and stopping here comes last. Every kept iteration shortens the
  rest of the input, so the rest's length bounds the number of iterations and is the
  recursion's fuel.
\<close>

primrec rstar :: "nat \<Rightarrow> (rstate \<Rightarrow> rstate list) \<Rightarrow> rstate \<Rightarrow> rstate list" where
  "rstar 0 m x = [x]"
| "rstar (Suc n) m x =
     concat (map (rstar n m) (filter (\<lambda>y. length (snd y) < length (snd x)) (m x))) @ [x]"

primrec matchAt :: "bool \<Rightarrow> regex \<Rightarrow> rstate \<Rightarrow> rstate list" where
  "matchAt ic (Chars cs) x =
     (case snd x of [] \<Rightarrow> [] | c # rest \<Rightarrow> if inClass ic cs c then [(Some c, rest)] else [])"
| "matchAt ic (NotChars cs) x =
     (case snd x of [] \<Rightarrow> [] | c # rest \<Rightarrow> if inClass ic cs c then [] else [(Some c, rest)])"
| "matchAt ic Eps x = [x]"
| "matchAt ic (Seq a b) x = concat (map (matchAt ic b) (matchAt ic a x))"
| "matchAt ic (Alt a b) x = matchAt ic a x @ matchAt ic b x"
| "matchAt ic (Star a) x = rstar (length (snd x)) (matchAt ic a) x"
| "matchAt ic WordBoundary x = (if atWordBoundary x then [x] else [])"
| "matchAt ic EndOfInput x = (if snd x = [] then [x] else [])"

text \<open>
  \<^verbatim>\<open>RegExp.prototype.exec\<close> without the \<^verbatim>\<open>g\<close> flag (and so \<^verbatim>\<open>String.prototype.match\<close>):
  the leftmost start at which the pattern matches. The result is the text before the
  match, the matched text and the position after it; \<open>p\<close> is the character before \<open>s\<close>.
\<close>

fun search ::
  "bool \<Rightarrow> regex \<Rightarrow> char option \<Rightarrow> string \<Rightarrow> (string \<times> string \<times> rstate) option"
where
  "search ic r p [] =
     (case matchAt ic r (p, []) of [] \<Rightarrow> None | x # xs \<Rightarrow> Some ([], [], x))"
| "search ic r p (c # cs) =
     (case matchAt ic r (p, c # cs) of
        x # xs \<Rightarrow> Some ([], take (length (c # cs) - length (snd x)) (c # cs), x)
      | [] \<Rightarrow> (case search ic r (Some c) cs of
                 None \<Rightarrow> None
               | Some (pre, m, x) \<Rightarrow> Some (c # pre, m, x)))"

text \<open>\<^verbatim>\<open>s.replace(r, repl)\<close> for a pattern without the \<^verbatim>\<open>g\<close> flag and a replacement
  text without \<^verbatim>\<open>$\<close>: the first match is replaced.\<close>

definition replaceFirst :: "bool \<Rightarrow> regex \<Rightarrow> string \<Rightarrow> string \<Rightarrow> string" where
  "replaceFirst ic r repl s =
     (case search ic r None s of None \<Rightarrow> s | Some (pre, m, x) \<Rightarrow> pre @ repl @ snd x)"

text \<open>
  The same with the \<^verbatim>\<open>g\<close> flag: every match is replaced, the search resuming where the
  last match ended, and one character further on after an empty match.
\<close>

function replaceAll :: "bool \<Rightarrow> regex \<Rightarrow> string \<Rightarrow> char option \<Rightarrow> string \<Rightarrow> string" where
  "replaceAll ic r repl p s =
     (case matchAt ic r (p, s) of
        x # xs \<Rightarrow>
          if length (snd x) < length s then repl @ replaceAll ic r repl (fst x) (snd x)
          else repl @ (case s of [] \<Rightarrow> [] | c # cs \<Rightarrow> c # replaceAll ic r repl (Some c) cs)
      | [] \<Rightarrow> (case s of [] \<Rightarrow> [] | c # cs \<Rightarrow> c # replaceAll ic r repl (Some c) cs))"
  by pat_completeness auto
termination
  by (relation "measure (\<lambda>(ic, r, repl, p, s). length s)") auto

declare replaceAll.simps [simp del]

text \<open>
  \<^verbatim>\<open>s.split(r)\<close>: \<open>seg\<close> is the piece collected since the last separator. A match that
  is empty and lies at the start of the piece is skipped; any other match closes the
  piece.
\<close>

function splitLoop :: "regex \<Rightarrow> string \<Rightarrow> char option \<Rightarrow> string \<Rightarrow> string list" where
  "splitLoop r seg p [] = [seg]"
| "splitLoop r seg p (c # cs) =
     (case matchAt False r (p, c # cs) of
        [] \<Rightarrow> splitLoop r (seg @ [c]) (Some c) cs
      | x # xs \<Rightarrow>
          if length (snd x) < length (c # cs) then seg # splitLoop r [] (fst x) (snd x)
          else if seg = [] then splitLoop r (seg @ [c]) (Some c) cs
          else seg # splitLoop r [] p (c # cs))"
  by pat_completeness auto
termination
  by (relation "measure (\<lambda>(r, seg, p, s). 2 * length s + (if seg = [] then 0 else 1))") auto

declare splitLoop.simps [simp del]

definition splitRegex :: "regex \<Rightarrow> string \<Rightarrow> string list" where
  "splitRegex r s =
     (if s = [] then (if matchAt False r (None, []) = [] then [[]] else [])
      else splitLoop r [] None s)"

text \<open>\<^verbatim>\<open>s.split(sep)\<close> for a separator of one character.\<close>

fun splitOn :: "char \<Rightarrow> string \<Rightarrow> string list" where
  "splitOn sep [] = [[]]"
| "splitOn sep (c # cs) =
     (if c = sep then [] # splitOn sep cs
      else (case splitOn sep cs of [] \<Rightarrow> [[c]] | x # xs \<Rightarrow> (c # x) # xs))"

section \<open>Spreadsheet extraction (excelParser.ts)\<close>

subsection \<open>The patterns of \<open>extractSubjectAndRoom\<close>\<close>

text \<open>\<^verbatim>\<open>/[\n\r]+/\<close>\<close>

definition newlinesRx :: regex where
  "newlinesRx = OneOrMore (Chars [CHR 0x0A, CHR 0x0D])"

text \<open>\<^verbatim>\<open>/\(([^)]+)\)/\<close>, and without its group \<^verbatim>\<open>/\([^)]+\)/g\<close>\<close>

definition parenRoomRx :: regex where
  "parenRoomRx = seqs [lit ''('', OneOrMore (NotChars '')''), lit '')'']"

text \<open>\<^verbatim>\<open>/[A-Z]?\d+[A-Z]?-[A-Z]+\d+-[A-Z]+/\<close>\<close>

definition roomCodeRx :: regex where
  "roomCodeRx =
     seqs [Optional (Chars upperAZ), OneOrMore (Chars digits), Optional (Chars upperAZ),
           lit ''-'', OneOrMore (Chars upperAZ), OneOrMore (Chars digits), lit ''-'',
           OneOrMore (Chars upperAZ)]"

text \<open>The four \<^verbatim>\<open>roomPatterns\<close>: \<^verbatim>\<open>/\b([A-Z]?\d+[A-Z]?-[A-Z]+\d+-[A-Z]+)\b/\<close>,
  \<^verbatim>\<open>/\b([A-Z]\d+[A-Z]?-[A-Z]+\d+)\b/\<close>, \<^verbatim>\<open>/\b(\d{4}[A-Z]?)\b/\<close> and
  \<^verbatim>\<open>/\b([A-Z]+\d+[A-Z]?)\b/\<close>.\<close>

definition roomPatterns :: "regex list" where
  "roomPatterns =
     [seqs [WordBoundary, roomCodeRx, WordBoundary],
      seqs [WordBoundary, Chars upperAZ, OneOrMore (Chars digits), Optional (Chars upperAZ),
            lit ''-'', OneOrMore (Chars upperAZ), OneOrMore (Chars digits), WordBoundary],
      seqs [WordBoundary, repeatN 4 (Chars digits), Optional (Chars upperAZ), WordBoundary],
      seqs [WordBoundary, OneOrMore (Chars upperAZ), OneOrMore (Chars digits),
            Optional (Chars upperAZ), WordBoundary]]"

text \<open>\<^verbatim>\<open>/\b(?:Dr|Prof|Mr|Ms|Mrs)\.?\s+[A-Z][a-z]+(?:\s+[A-Z][a-z]+)*:?/g\<close>\<close>

definition instructorRx :: regex where
  "instructorRx =
     seqs [WordBoundary, alts [lit ''Dr'', lit ''Prof'', lit ''Mr'', lit ''Ms'', lit ''Mrs''],
           Optional (lit ''.''), OneOrMore (Chars whiteSpace), Chars upperAZ,
           OneOrMore (Chars lowerAZ),
           Star (seqs [OneOrMore (Chars whiteSpace), Chars upperAZ, OneOrMore (Chars lowerAZ)]),
           Optional (lit '':'')]"

text \<open>\<^verbatim>\<open>/(?:23CSBTB\d{2}[A-Z]?|\d{2}[A-Z]{3,}\d{2}[A-Z]?\d?)/g\<close>\<close>

definition batchRx :: regex where
  "batchRx =
     alts [seqs [lit ''23CSBTB'', repeatN 2 (Chars digits), Optional (Chars upperAZ)],
           seqs [repeatN 2 (Chars digits), repeatN 3 (Chars upperAZ), Star (Chars upperAZ),
                 repeatN 2 (Chars digits), Optional (Chars upperAZ), Optional (Chars digits)]]"

text \<open>\<^verbatim>\<open>/\([^)]*\)/g\<close>\<close>

definition parenAnyRx :: regex where
  "parenAnyRx = seqs [lit ''('', Star (NotChars '')''), lit '')'']"

text \<open>The class of trailing colons and dashes. The source's class also lists the en dash
  and the em dash, which are not 8-bit code units and cannot occur in the texts modelled.\<close>

definition trailingDashRx :: regex where
  "trailingDashRx = seqs [OneOrMore (Chars '':-''), EndOfInput]"

text \<open>\<^verbatim>\<open>/\s+/g\<close>\<close>

definition spacesRx :: regex where
  "spacesRx = OneOrMore (Chars whiteSpace)"

definition commonSurnames :: "string list" where
  "commonSurnames =
     [''sujitha'', ''sudharani'', ''ramesh'', ''mishra'', ''nagalaxmi'', ''sammaiah'',
      ''rao'', ''sourav'', ''kumar'', ''shiva'', ''kotte'', ''teja'', ''tyagi'', ''iram'',
      ''venkatesh'', ''gurrapu'', ''reddy'', ''hazra'', ''Dr'', ''dr'', ''Mr'', ''Mrs'', ''Ms'',
      ''sandeep'', ''Bhanu'']"

text \<open>\<^verbatim>\<open>new RegExp('\\b(' + commonSurnames.join('|') + ')\\b', 'gi')\<close>\<close>

definition surnamePattern :: regex where
  "surnamePattern = seqs [WordBoundary, alts (map lit commonSurnames), WordBoundary]"

text \<open>\<^verbatim>\<open>/\b[A-Z]\b/g\<close>\<close>

definition singleLetterRx :: regex where
  "singleLetterRx = seqs [WordBoundary, Chars upperAZ, WordBoundary]"

text \<open>\<^verbatim>\<open>/[.,;:()\s]+$/g\<close>\<close>

definition trailingPunctRx :: regex where
  "trailingPunctRx = seqs [OneOrMore (Chars (''.,;:()'' @ whiteSpace)), EndOfInput]"

text \<open>\<^verbatim>\<open>/[^a-zA-Z\s]/g\<close>\<close>

definition nonLetterRx :: regex where
  "nonLetterRx = NotChars (lowerAZ @ upperAZ @ whiteSpace)"

subsection \<open>Subject and room of a cell\<close>

text \<open>The loop over \<^verbatim>\<open>roomPatterns\<close>: the first pattern that matches gives the room
  (\<^verbatim>\<open>match[1] || match[0]\<close>, and group 1 spans the whole match) and is removed once.\<close>

fun tryRoomPatterns :: "regex list \<Rightarrow> string \<Rightarrow> string option \<times> string" where
  "tryRoomPatterns [] cleanData = (None, cleanData)"
| "tryRoomPatterns (pat # pats) cleanData =
     (case search False pat None cleanData of
        Some (pre, m, x) \<Rightarrow> (Some m, trim (replaceFirst False pat [] cleanData))
      | None \<Rightarrow> tryRoomPatterns pats cleanData)"

text \<open>
  \<^verbatim>\<open>extractSubjectAndRoom(cellData)\<close>. The variables \<^verbatim>\<open>cleanData\<close>, \<^verbatim>\<open>room\<close> and
  \<^verbatim>\<open>subject\<close> are reassigned in the source; each \<open>let\<close> below is one assignment, in the
  source's order. Group 1 of the parenthesis pattern is the match without its first and
  last character. A room is absent when it is \<^term>\<open>None\<close>; \<^verbatim>\<open>!room\<close> and \<^verbatim>\<open>!subject\<close>
  also hold for the empty string.
\<close>

definition extractSubjectAndRoom :: "string \<Rightarrow> string \<times> string option" where
  "extractSubjectAndRoom cellData =
     (if cellData = [] \<or> trim cellData = [] then ([], None)
      else
        let cleanData = trim cellData;
            lines = splitRegex newlinesRx cleanData;
            cleanData = (if length lines > 1 then trim (hd lines) else cleanData);
            parts = splitOn CHR '','' cleanData;
            cleanData = (if length parts > 1 then trim (hd parts) else cleanData);
            (room, cleanData) =
              (case search False parenRoomRx None cleanData of
                 Some (pre, m, x) \<Rightarrow>
                   let potentialRoom = trim (butlast (tl m))
                   in if search False roomCodeRx None potentialRoom \<noteq> None
                      then (Some potentialRoom,
                            trim (replaceAll False parenRoomRx [] None cleanData))
                      else (None, cleanData)
               | None \<Rightarrow> (None, cleanData));
            (room, cleanData) =
              (if room = None \<or> room = Some []
               then (case tryRoomPatterns roomPatterns cleanData of
                       (Some m, cleaned) \<Rightarrow> (Some m, cleaned)
                     | (None, cleaned) \<Rightarrow> (room, cleanData))
               else (room, cleanData));
            subj = cleanData;
            subj = replaceAll False instructorRx [] None subj;
            subj = replaceAll False batchRx [] None subj;
            subj = replaceAll False parenAnyRx [] None subj;
            subj = trim (replaceAll False spacesRx '' '' None
                           (replaceAll False trailingDashRx [] None subj));
            subj = trim (replaceAll True surnamePattern [] None subj);
            subj = trim (replaceAll False singleLetterRx [] None subj);
            subj = trim (replaceAll False trailingPunctRx [] None
                           (replaceAll False spacesRx '' '' None subj));
            subj = (if subj = []
                    then let words = splitRegex spacesRx cleanData
                         in replaceAll False nonLetterRx [] None (join '' '' (take 3 words))
                    else subj)
        in (subj, room))"

subsection \<open>The grid parser\<close>

record ParsedTimetableEntry =
  p_id :: string
  p_day :: string
  p_time :: string
  p_subject :: string
  p_room :: "string option"
  p_batch :: "string option"

record ExcelParseResult =
  success :: bool
  data :: "ParsedTimetableEntry list"
  errors :: "string list"
  warnings :: "string list"

record DayColumn =
  name :: string
  index :: nat

text \<open>\<^verbatim>\<open>String(row[i] || '')\<close>: a cell beyond the end of its row reads as the empty text.\<close>

definition cellAt :: "string list \<Rightarrow> nat \<Rightarrow> string" where
  "cellAt row i = (if i < length row then row ! i else [])"

fun findIndex :: "('a \<Rightarrow> bool) \<Rightarrow> 'a list \<Rightarrow> nat option" where
  "findIndex P [] = None"
| "findIndex P (x # xs) = (if P x then Some 0 else map_option Suc (findIndex P xs))"

definition dayNames :: "string list" where
  "dayNames = [''monday'', ''tuesday'', ''wednesday'', ''thursday'', ''friday'', ''saturday'',
               ''sunday'']"

text \<open>\<^verbatim>\<open>matchedDay.charAt(0).toUpperCase() + matchedDay.slice(1)\<close>\<close>

definition capitalize :: "string \<Rightarrow> string" where
  "capitalize s = (case s of [] \<Rightarrow> [] | c # cs \<Rightarrow> toUpperCaseChar c # cs)"

text \<open>The time column: the first header that is not empty and contains "time" or
  "period" (the test \<^verbatim>\<open>h && (... || h === '')\<close>), and column 0 when there is none.\<close>

definition timeColumnOf :: "string list \<Rightarrow> nat" where
  "timeColumnOf headers =
     (let timeColumnIndex =
            findIndex (\<lambda>h. h \<noteq> [] \<and> (includesStr (toLowerCase h) ''time''
                                      \<or> includesStr (toLowerCase h) ''period'' \<or> h = []))
              headers
      in case timeColumnIndex of Some i \<Rightarrow> i | None \<Rightarrow> 0)"

text \<open>The \<^verbatim>\<open>headers.forEach\<close> that collects the day columns, in header order.\<close>

definition findDayColumns :: "string list \<Rightarrow> nat \<Rightarrow> DayColumn list" where
  "findDayColumns headers timeColumn =
     concat (map (\<lambda>(header, i).
        if i = timeColumn then []
        else let headerLower = toLowerCase header;
                 matchedDay = find (\<lambda>day. includesStr headerLower day
                                           \<or> includesStr headerLower (take 3 day)) dayNames
             in case matchedDay of
                  Some d \<Rightarrow> [\<lparr>name = capitalize d, index = i\<rparr>]
                | None \<Rightarrow> [])
       (zip headers [0 ..< length headers]))"

text \<open>
  The body of the inner \<^verbatim>\<open>dayColumns.forEach\<close>: one cell, which may push one entry.
  \<open>random k\<close> is the text \<^verbatim>\<open>Math.random().toString(36).substr(2, 9)\<close> of the \<open>k\<close>-th
  draw; the function draws once for each entry it pushes.
\<close>

definition processCell ::
  "(nat \<Rightarrow> string) \<Rightarrow> string \<Rightarrow> nat \<Rightarrow> string list \<Rightarrow> DayColumn
     \<Rightarrow> ParsedTimetableEntry list \<Rightarrow> ParsedTimetableEntry list"
where
  "processCell random timeValue rowIndex row dayCol timetableEntries =
     (let cellData = trim (cellAt row (index dayCol))
      in if cellData = [] \<or> includesStr (toLowerCase cellData) ''free''
            \<or> includesStr (toLowerCase cellData) ''break'' \<or> cellData = ''-''
         then timetableEntries
         else let (subj, room) = extractSubjectAndRoom cellData
              in if subj \<noteq> []
                 then timetableEntries @
                        [\<lparr>p_id = toLowerCase (name dayCol) @ ''-'' @ timeValue @ ''-''
                                  @ numberToString rowIndex @ ''-''
                                  @ random (length timetableEntries),
                          p_day = name dayCol, p_time = timeValue, p_subject = subj,
                          p_room = room, p_batch = None\<rparr>]
                 else timetableEntries)"

text \<open>The body of the outer \<^verbatim>\<open>dataRows.forEach\<close>: one row with its index.\<close>

definition processRow ::
  "(nat \<Rightarrow> string) \<Rightarrow> nat \<Rightarrow> DayColumn list \<Rightarrow> string list \<times> nat
     \<Rightarrow> ParsedTimetableEntry list \<Rightarrow> ParsedTimetableEntry list"
where
  "processRow random timeColumn dayColumns rowWithIndex timetableEntries =
     (let row = fst rowWithIndex; rowIndex = snd rowWithIndex;
          timeValue = trim (cellAt row timeColumn)
      in if timeValue = [] then timetableEntries
         else fold (processCell random timeValue rowIndex row) dayColumns timetableEntries)"

definition timetableEntriesOf ::
  "(nat \<Rightarrow> string) \<Rightarrow> nat \<Rightarrow> DayColumn list \<Rightarrow> string list list
     \<Rightarrow> ParsedTimetableEntry list"
where
  "timetableEntriesOf random timeColumn dayColumns dataRows =
     fold (processRow random timeColumn dayColumns) (zip dataRows [0 ..< length dataRows]) []"

text \<open>\<^verbatim>\<open>result.errors.push(msg); return result\<close> on the initial result.\<close>

definition failWith :: "string \<Rightarrow> ExcelParseResult" where
  "failWith msg = \<lparr>success = False, data = [], errors = [msg], warnings = []\<rparr>"

text \<open>
  \<^verbatim>\<open>parseExcelTimetable\<close> from the point where the first sheet has been read into
  \<^verbatim>\<open>rawData\<close>, the grid of cell texts (\<^verbatim>\<open>sheet_to_json\<close> with \<^verbatim>\<open>header: 1\<close>,
  \<^verbatim>\<open>defval: ''\<close> and \<^verbatim>\<open>raw: false\<close>). Reading the file is the library's part; on a grid of
  texts no statement of the \<^verbatim>\<open>try\<close> block throws.
\<close>

definition parseExcelTimetable :: "(nat \<Rightarrow> string) \<Rightarrow> string list list \<Rightarrow> ExcelParseResult" where
  "parseExcelTimetable random rawData =
     (if length rawData < 3
      then failWith ''Excel file must contain at least 3 rows (batch header, day header, and data)''
      else
        let headers = map trim (rawData ! 1);
            dataRows = drop 2 rawData;
            timeColumn = timeColumnOf headers;
            dayColumns = findDayColumns headers timeColumn
        in if length dayColumns = 0
           then failWith (''No day columns found in headers: '' @ join '', '' headers)
           else
             let timetableEntries = timetableEntriesOf random timeColumn dayColumns dataRows
             in if length timetableEntries = 0
                then failWith ''No valid timetable entries found. Please check your Excel format.''
                else \<lparr>success = True, data = timetableEntries, errors = [],
                      warnings =
                        [''Successfully parsed '' @ numberToString (length timetableEntries)
                           @ '' timetable entries'']
                        @ (if length (remdups (map p_subject timetableEntries)) < 3
                           then [''Only found a few unique subjects. Please verify the data extraction.'']
                           else [])\<rparr>)"

section \<open>The attendance page (pages/Attendance.tsx)\<close>

record ClassWithStatus = TimetableEntry +
  c_status :: "Status option"
  attendanceId :: "string option"

record Toast =
  title :: string
  description :: string
  variant :: "string option"

text \<open>
  What the page takes from the browser: the English weekday name of a date-time string
  (\<^verbatim>\<open>toLocaleDateString('en-US', {weekday: 'long'})\<close>) and the collation
  \<^verbatim>\<open>localeCompare\<close>.
\<close>

record Platform =
  weekdayLong :: "string \<Rightarrow> string"
  localeCompare :: "string \<Rightarrow> string \<Rightarrow> int"

text \<open>The component's React state, together with the \<^verbatim>\<open>localStorage\<close> it reads and
  writes. A state update is visible to the next event handler, which is what the fields
  hold.\<close>

record PageState =
  storage :: Storage
  selectedDate :: string
  todayClasses :: "ClassWithStatus list"
  subjects :: "Subject list"

definition statusText :: "Status \<Rightarrow> string" where
  "statusText s = (case s of present \<Rightarrow> ''present'' | absent \<Rightarrow> ''absent'')"

definition loadAttendanceData :: "Platform \<Rightarrow> PageState \<Rightarrow> PageState" where
  "loadAttendanceData pf st =
     (let timetable = getTimetable (storage st);
          attendanceRecords = getAttendanceRecords (storage st);
          storedSubjects = getSubjects (storage st);
          dayName = weekdayLong pf (selectedDate st @ ''T00:00:00'');
          dayClasses =
            filter (\<lambda>entry. toLowerCase (day entry) = toLowerCase dayName) timetable;
          classesWithStatus =
            sortBy (\<lambda>a b. localeCompare pf (time a) (time b))
              (map (\<lambda>cls.
                 let existingRecord =
                       find (\<lambda>record. date record = selectedDate st
                                       \<and> timetableEntryId record = t_id cls)
                         attendanceRecords
                 in \<lparr>t_id = t_id cls, day = day cls, time = time cls,
                     subject = subject cls, room = room cls, instructor = instructor cls,
                     c_status = map_option status existingRecord,
                     attendanceId = map_option a_id existingRecord\<rparr>) dayClasses)
      in st\<lparr>subjects := storedSubjects, todayClasses := classesWithStatus\<rparr>)"

text \<open>
  \<^verbatim>\<open>markAttendance(classItem, status)\<close>. The two arguments \<open>now\<close> and \<open>rnd\<close> are the
  texts of \<^verbatim>\<open>Date.now()\<close> and of \<^verbatim>\<open>Math.random().toString(36).substr(2, 9)\<close> at the
  call. The test \<^verbatim>\<open>if (classItem.attendanceId)\<close> is JavaScript truthiness: an absent
  id and the empty string both take the \<^verbatim>\<open>else\<close> branch. The result is the toast
  shown and the state after the call.
\<close>

definition markAttendance ::
  "Platform \<Rightarrow> string \<Rightarrow> string \<Rightarrow> ClassWithStatus \<Rightarrow> Status \<Rightarrow> PageState \<Rightarrow> Toast \<times> PageState"
where
  "markAttendance pf now rnd classItem st_status st =
     (let attendanceRecords = getAttendanceRecords (storage st)
      in case find (\<lambda>s. s_name s = subject classItem) (subjects st) of
           None \<Rightarrow>
             (\<lparr>title = ''Error'', description = ''Subject not found'',
               variant = Some ''destructive''\<rparr>, st)
         | Some subj \<Rightarrow>
             (let updatedRecords =
                    (case attendanceId classItem of
                       Some aid \<Rightarrow>
                         if aid \<noteq> [] then
                           map (\<lambda>record. if a_id record = aid
                                         then record\<lparr>status := st_status\<rparr> else record)
                             attendanceRecords
                         else
                           attendanceRecords @
                             [\<lparr>a_id = ''attendance-'' @ now @ ''-'' @ rnd,
                               subjectId = s_id subj, date = selectedDate st,
                               status = st_status, timetableEntryId = t_id classItem\<rparr>]
                     | None \<Rightarrow>
                         attendanceRecords @
                           [\<lparr>a_id = ''attendance-'' @ now @ ''-'' @ rnd,
                             subjectId = s_id subj, date = selectedDate st,
                             status = st_status, timetableEntryId = t_id classItem\<rparr>]);
                  st' = loadAttendanceData pf
                          (st\<lparr>storage := saveAttendanceRecords updatedRecords (storage st)\<rparr>)
              in (\<lparr>title = ''Marked '' @ statusText st_status,
                   description = subject classItem @ '' - '' @ time classItem,
                   variant = None\<rparr>, st')))"

text \<open>A mark request as the user issues it: the class clicked, the status chosen, and
  the two texts the new record's id is built from.\<close>

record MarkRequest =
  m_now :: string
  m_rnd :: string
  m_class :: ClassWithStatus
  m_status :: Status

definition markAll :: "Platform \<Rightarrow> MarkRequest list \<Rightarrow> PageState \<Rightarrow> PageState" where
  "markAll pf reqs st =
     fold (\<lambda>q s. snd (markAttendance pf (m_now q) (m_rnd q) (m_class q) (m_status q) s)) reqs st"

text \<open>
  The states of one window of the page while no other window writes the attendance key.
  The page mounts on a store that holds no attendance record yet (any timetable and
  subjects, any date selected) and loads; from there the user marks a class that the page
  shows, picks another date, or leaves the page and comes back, after the other pages have
  written any of the keys except the attendance key (they save timetables, subjects and
  the notification flag) or have cleared all data; each of these ends with
  \<open>loadAttendanceData\<close>. A second window on the same store is not among these steps:
  its marks change the store under a display that is not reloaded.
\<close>

inductive reachable :: "Platform \<Rightarrow> PageState \<Rightarrow> bool" for pf :: Platform where
  mount:
    "getAttendanceRecords (storage st) = [] \<Longrightarrow> reachable pf (loadAttendanceData pf st)"
| mark:
    "reachable pf st \<Longrightarrow> classItem \<in> set (todayClasses st) \<Longrightarrow>
     reachable pf (snd (markAttendance pf now rnd classItem st_status st))"
| select_date:
    "reachable pf st \<Longrightarrow> reachable pf (loadAttendanceData pf (st\<lparr>selectedDate := d\<rparr>))"
| other_pages:
    "reachable pf st \<Longrightarrow> attendflow_attendance ls = attendflow_attendance (storage st) \<Longrightarrow>
     reachable pf (loadAttendanceData pf (st\<lparr>storage := ls\<rparr>))"
| clear_all:
    "reachable pf st \<Longrightarrow>
     reachable pf (loadAttendanceData pf (st\<lparr>storage := clearAllData (storage st)\<rparr>))"

section \<open>Notions used to state and prove the properties\<close>

text \<open>The record a first mark creates, and the update a later mark applies to every
  record; both are the expressions of \<open>markAttendance\<close>, named.\<close>

definition newRecord ::
  "string \<Rightarrow> string \<Rightarrow> Subject \<Rightarrow> ClassWithStatus \<Rightarrow> Status \<Rightarrow> PageState \<Rightarrow> AttendanceRecord"
where
  "newRecord now rnd subj cls s st =
     \<lparr>a_id = ''attendance-'' @ now @ ''-'' @ rnd, subjectId = s_id subj,
      date = selectedDate st, status = s, timetableEntryId = t_id cls\<rparr>"

definition setStatus :: "string \<Rightarrow> Status \<Rightarrow> AttendanceRecord \<Rightarrow> AttendanceRecord" where
  "setStatus aid s r = (if a_id r = aid then r\<lparr>status := s\<rparr> else r)"

text \<open>The (schedule entry, date) pair of a record.\<close>

definition pairOf :: "AttendanceRecord \<Rightarrow> string \<times> string" where
  "pairOf r = (timetableEntryId r, date r)"

text \<open>A displayed class is in step with the store when its \<open>attendanceId\<close> is the id of
  the first stored record for the class and the selected date, as \<open>loadAttendanceData\<close>
  computes it.\<close>

definition shownFor :: "PageState \<Rightarrow> ClassWithStatus \<Rightarrow> bool" where
  "shownFor st cls \<longleftrightarrow>
     attendanceId cls =
       map_option a_id
         (find (\<lambda>r. date r = selectedDate st \<and> timetableEntryId r = t_id cls)
            (getAttendanceRecords (storage st)))"

text \<open>The invariant of the page: the stored records have pairwise different pairs, no
  stored id is the empty string, and every displayed class is in step with the store.\<close>

definition pageInv :: "PageState \<Rightarrow> bool" where
  "pageInv st \<longleftrightarrow>
     distinct (map pairOf (getAttendanceRecords (storage st)))
     \<and> (\<forall>r \<in> set (getAttendanceRecords (storage st)). a_id r \<noteq> [])
     \<and> (\<forall>cls \<in> set (todayClasses st). shownFor st cls)"

section \<open>Example data\<close>

definition demoPlatform :: Platform where
  "demoPlatform = \<lparr>weekdayLong = (\<lambda>d. ''Monday''), localeCompare = (\<lambda>a b. 0)\<rparr>"

definition demoSubject :: Subject where
  "demoSubject = \<lparr>s_id = ''subject-0'', s_name = ''Data Science'', colorIndex = 0,
     s_totalClasses = 0, s_attendedClasses = 0, s_attendancePercentage = 0\<rparr>"

definition demoEntry :: TimetableEntry where
  "demoEntry = \<lparr>t_id = ''monday-09:00-0-k3x'', day = ''Monday'', time = ''09:00'',
     subject = ''Data Science'', room = Some ''3102B-BL3-FF'', instructor = None\<rparr>"

definition demoStorage :: Storage where
  "demoStorage = \<lparr>attendflow_subjects = Some [demoSubject],
     attendflow_timetable = Some [demoEntry], attendflow_attendance = None,
     notifications_scheduled = None\<rparr>"

definition demoPage :: PageState where
  "demoPage = loadAttendanceData demoPlatform
     \<lparr>storage = demoStorage, selectedDate = ''2024-01-01'', todayClasses = [], subjects = []\<rparr>"

definition demoClass :: "string option \<Rightarrow> Status option \<Rightarrow> ClassWithStatus" where
  "demoClass aid s = \<lparr>t_id = ''monday-09:00-0-k3x'', day = ''Monday'', time = ''09:00'',
     subject = ''Data Science'', room = Some ''3102B-BL3-FF'', instructor = None,
     c_status = s, attendanceId = aid\<rparr>"

definition demoRecord :: "Status \<Rightarrow> AttendanceRecord" where
  "demoRecord s = \<lparr>a_id = ''attendance-1700000000000-q1w2e3r4t'', subjectId = ''subject-0'',
      date = ''2024-01-01'', status = s, timetableEntryId = ''monday-09:00-0-k3x''\<rparr>"

definition demoPage1 :: PageState where
  "demoPage1 = snd (markAttendance demoPlatform ''1700000000000'' ''q1w2e3r4t''
                      (demoClass None None) present demoPage)"

definition tenRecords :: "AttendanceRecord list" where
  "tenRecords =
     map (\<lambda>(d, s). \<lparr>a_id = ''attendance-'' @ d, subjectId = ''subject-0'', date = d,
                     status = s, timetableEntryId = ''monday-09:00-0-k3x''\<rparr>)
       [(''2024-01-01'', present), (''2024-01-08'', absent), (''2024-01-15'', present),
        (''2024-01-22'', present), (''2024-01-29'', absent), (''2024-02-05'', present),
        (''2024-02-12'', absent), (''2024-02-19'', present), (''2024-02-26'', absent),
        (''2024-03-04'', present)]"

definition tenRecordsStorage :: Storage where
  "tenRecordsStorage = demoStorage\<lparr>attendflow_attendance := Some tenRecords\<rparr>"

definition twentyFiveRecords :: "AttendanceRecord list" where
  "twentyFiveRecords =
     map (\<lambda>(d, s). \<lparr>a_id = ''attendance-'' @ d, subjectId = ''subject-0'', date = d,
                     status = s, timetableEntryId = ''monday-09:00-0-k3x''\<rparr>)
       [(''2024-01-01'', present), (''2024-01-08'', present), (''2024-01-15'', present),
        (''2024-01-22'', present), (''2024-01-29'', present), (''2024-02-05'', present),
        (''2024-02-12'', present), (''2024-02-19'', absent), (''2024-02-26'', absent),
        (''2024-03-04'', absent), (''2024-03-11'', absent), (''2024-03-18'', absent),
        (''2024-03-25'', absent), (''2024-04-01'', absent), (''2024-04-08'', absent),
        (''2024-04-15'', absent), (''2024-04-22'', absent), (''2024-04-29'', absent),
        (''2024-05-06'', absent), (''2024-05-13'', absent), (''2024-05-20'', absent),
        (''2024-05-27'', absent), (''2024-06-03'', absent), (''2024-06-10'', absent),
        (''2024-06-17'', absent)]"

definition twentyFiveRecordsStorage :: Storage where
  "twentyFiveRecordsStorage = demoStorage\<lparr>attendflow_attendance := Some twentyFiveRecords\<rparr>"

text \<open>The example page as one window holds it after a second window on the same store
  has marked the class present: the store has the record, and the state of the first
  window is still what it loaded before.\<close>

definition stalePage :: PageState where
  "stalePage = demoPage\<lparr>storage := storage demoPage1\<rparr>"

definition absentOnlyStorage :: Storage where
  "absentOnlyStorage = demoStorage\<lparr>attendflow_attendance := Some [demoRecord absent]\<rparr>"

definition emptyStorage :: Storage where
  "emptyStorage = \<lparr>attendflow_subjects = None, attendflow_timetable = None,
     attendflow_attendance = None, notifications_scheduled = None\<rparr>"

definition tenSubject :: Subject where
  "tenSubject = demoSubject\<lparr>s_totalClasses := 10, s_attendedClasses := 6,
     s_attendancePercentage := 60\<rparr>"

definition exampleRandom :: "nat \<Rightarrow> string" where
  "exampleRandom k = ''k3x9q2m1z''"

definition exampleGrid :: "string list list" where
  "exampleGrid = [[''Batch A''], [''Time'', ''Monday'', ''Tuesday''],
                  [''09:00'', ''Data Science (3102B-BL3-FF) Dr. Smith'', ''Free'']]"

definition headerOnlyGrid :: "string list list" where
  "headerOnlyGrid = [[''Batch A''], [''Time'', ''Monday'']]"

section \<open>Properties of the double arithmetic\<close>

lemma ilog2_bounds: "0 < n \<Longrightarrow> 2 ^ ilog2 n \<le> n \<and> n < 2 * 2 ^ ilog2 n"
proof (induction n rule: ilog2.induct)
  case (1 n)
  show ?case
  proof (cases "n < 2")
    case True
    with "1.prems" have "n = 1" by simp
    then show ?thesis by (simp add: ilog2.simps)
  next
    case False
    then have "0 < n div 2" by simp
    with "1.IH" False
    have IH: "2 ^ ilog2 (n div 2) \<le> n div 2 \<and> n div 2 < 2 * 2 ^ ilog2 (n div 2)" by simp
    have eq: "ilog2 n = Suc (ilog2 (n div 2))" using False by (simp add: ilog2.simps)
    from IH have "2 * 2 ^ ilog2 (n div 2) \<le> n" "n < 2 * (2 * 2 ^ ilog2 (n div 2))" by linarith+
    then show ?thesis by (simp add: eq)
  qed
qed

lemma pow2_less_cancel: "(2::rat) powi a < 2 powi b \<Longrightarrow> a < b"
proof (rule ccontr)
  assume lt: "(2::rat) powi a < 2 powi b" and "\<not> a < b"
  then have "b \<le> a" by simp
  then have "(2::rat) powi b \<le> 2 powi a" by (intro power_int_increasing) simp_all
  with lt show False by simp
qed

lemma exponentOf_bounds:
  assumes "0 < x"
  shows "2 powi exponentOf x \<le> x" and "x < 2 powi (exponentOf x + 1)"
proof -
  obtain p q where pq: "quotient_of x = (p, q)" by (cases "quotient_of x")
  then have q: "0 < q" and x: "x = of_int p / of_int q"
    using quotient_of_denom_pos quotient_of_div by blast+
  from assms x q have p: "0 < p" by (simp add: zero_less_divide_iff)
  define a where "a = ilog2 (nat p)"
  define b where "b = ilog2 (nat q)"
  from ilog2_bounds[of "nat p"] p have pa: "2 ^ a \<le> nat p" "nat p < 2 * 2 ^ a"
    by (simp_all add: a_def)
  from ilog2_bounds[of "nat q"] q have qb: "2 ^ b \<le> nat q" "nat q < 2 * 2 ^ b"
    by (simp_all add: b_def)
  have P: "(2::rat) ^ a \<le> of_int p" "of_int p < (2::rat) * 2 ^ a"
  proof -
    from pa(1) have "of_nat (2 ^ a) \<le> (of_nat (nat p) :: rat)" by (simp only: of_nat_le_iff)
    then show "(2::rat) ^ a \<le> of_int p" using p by simp
    from pa(2) have "(of_nat (nat p) :: rat) < of_nat (2 * 2 ^ a)" by (simp only: of_nat_less_iff)
    then show "of_int p < (2::rat) * 2 ^ a" using p by simp
  qed
  have Q: "(2::rat) ^ b \<le> of_int q" "of_int q < (2::rat) * 2 ^ b"
  proof -
    from qb(1) have "of_nat (2 ^ b) \<le> (of_nat (nat q) :: rat)" by (simp only: of_nat_le_iff)
    then show "(2::rat) ^ b \<le> of_int q" using q by simp
    from qb(2) have "(of_nat (nat q) :: rat) < of_nat (2 * 2 ^ b)" by (simp only: of_nat_less_iff)
    then show "of_int q < (2::rat) * 2 ^ b" using q by simp
  qed
  define d where "d = int a - int b"
  have qpos: "(0::rat) < of_int q" using q by simp
  have up: "x < 2 powi (d + 1)"
  proof -
    have "x < (2 * 2 ^ a) / 2 ^ b"
      unfolding x using P(2) Q(1) qpos p
      by (intro frac_less) simp_all
    also have "\<dots> = 2 powi (d + 1)"
      by (simp add: d_def power_int_add power_int_diff)
    finally show ?thesis .
  qed
  have lo: "2 powi (d - 1) < x"
  proof -
    have "2 ^ a / (2 * 2 ^ b) < x"
      unfolding x using P(1) Q(2) qpos p
      by (intro frac_less2) simp_all
    moreover have "2 ^ a / (2 * 2 ^ b) = (2::rat) powi (d - 1)"
      by (simp add: d_def power_int_diff)
    ultimately show ?thesis by simp
  qed
  have e: "exponentOf x = (if 2 powi d \<le> x then d else d - 1)"
    by (simp add: exponentOf_def pq a_def b_def d_def Let_def)
  show "2 powi exponentOf x \<le> x" using lo by (simp add: e)
  show "x < 2 powi (exponentOf x + 1)" using up by (simp add: e)
qed

lemma exponentOf_eqI:
  assumes "0 < x" "2 powi k \<le> x" "x < 2 powi (k + 1)"
  shows "exponentOf x = k"
proof -
  from exponentOf_bounds[OF assms(1)] assms(2,3)
  have "(2::rat) powi exponentOf x < 2 powi (k + 1)" "(2::rat) powi k < 2 powi (exponentOf x + 1)"
    by simp_all
  then have "exponentOf x < k + 1" "k < exponentOf x + 1" by (simp_all only: pow2_less_cancel)
  then show ?thesis by simp
qed

lemma rhe_cases:
  "roundHalfEven m = \<lfloor>m\<rfloor> \<and> m - of_int \<lfloor>m\<rfloor> \<le> 1 / 2
   \<or> roundHalfEven m = \<lfloor>m\<rfloor> + 1 \<and> 1 / 2 \<le> m - of_int \<lfloor>m\<rfloor>"
  by (auto simp: roundHalfEven_def Let_def)

lemma rhe_err: "\<bar>of_int (roundHalfEven m) - m\<bar> \<le> 1 / 2"
proof -
  have "of_int \<lfloor>m\<rfloor> \<le> m" "m < of_int \<lfloor>m\<rfloor> + 1" by linarith+
  with rhe_cases[of m] show ?thesis by auto
qed

lemma rhe_ge: "of_int k \<le> m \<Longrightarrow> k \<le> roundHalfEven m"
proof -
  assume "of_int k \<le> m"
  then have "k \<le> \<lfloor>m\<rfloor>" by (simp add: le_floor_iff)
  with rhe_cases[of m] show ?thesis by auto
qed

lemma rhe_of_int: "roundHalfEven (of_int k) = k"
  by (simp add: roundHalfEven_def)

lemma rhe_le: "m \<le> of_int k \<Longrightarrow> roundHalfEven m \<le> k"
proof (cases "m = of_int k")
  case True
  then show ?thesis by (simp add: rhe_of_int)
next
  case False
  assume "m \<le> of_int k"
  with False have "m < of_int k" by simp
  then have "\<lfloor>m\<rfloor> < k" by (simp add: floor_less_iff)
  with rhe_cases[of m] show ?thesis by auto
qed

lemma rhe_eqI: "\<bar>m - of_int n\<bar> < 1 / 2 \<Longrightarrow> roundHalfEven m = n"
proof -
  assume a: "\<bar>m - of_int n\<bar> < 1 / 2"
  from rhe_err[of m] a have "\<bar>(of_int (roundHalfEven m) :: rat) - of_int n\<bar> < 1" by linarith
  then have "\<bar>(of_int (roundHalfEven m - n) :: rat)\<bar> < 1" by simp
  then have "\<bar>roundHalfEven m - n\<bar> < 1" by (simp only: of_int_abs[symmetric] of_int_less_1_iff)
  then show ?thesis by simp
qed

lemma rhe_mono: "m \<le> m' \<Longrightarrow> roundHalfEven m \<le> roundHalfEven m'"
proof -
  assume le: "m \<le> m'"
  then have fl: "\<lfloor>m\<rfloor> \<le> \<lfloor>m'\<rfloor>" by (rule floor_mono)
  show ?thesis
  proof (cases "\<lfloor>m\<rfloor> = \<lfloor>m'\<rfloor>")
    case True
    with le have "m - of_int \<lfloor>m\<rfloor> \<le> m' - of_int \<lfloor>m'\<rfloor>" by simp
    then show ?thesis using True by (auto simp: roundHalfEven_def Let_def)
  next
    case False
    with fl have "\<lfloor>m\<rfloor> + 1 \<le> \<lfloor>m'\<rfloor>" by simp
    moreover have "roundHalfEven m \<le> \<lfloor>m\<rfloor> + 1" using rhe_cases[of m] by auto
    moreover have "\<lfloor>m'\<rfloor> \<le> roundHalfEven m'" using rhe_cases[of m'] by auto
    ultimately show ?thesis by simp
  qed
qed

lemma toDouble_pos_eq:
  "0 < x \<Longrightarrow>
   toDouble x = of_int (roundHalfEven (x / 2 powi (exponentOf x - 52))) * 2 powi (exponentOf x - 52)"
  by (simp add: toDouble_def Let_def)

lemma toDouble_zero: "toDouble 0 = 0"
  by (simp add: toDouble_def)

lemma mantissa_bounds:
  assumes "0 < x"
  shows "2 ^ 52 \<le> x / 2 powi (exponentOf x - 52)" and "x / 2 powi (exponentOf x - 52) \<le> 2 ^ 53"
proof -
  have s: "(2::rat) powi (exponentOf x - 52) * 2 ^ 52 = 2 powi exponentOf x"
    by (simp add: power_int_diff)
  have s': "(2::rat) powi (exponentOf x - 52) * 2 ^ 53 = 2 powi (exponentOf x + 1)"
    by (simp add: power_int_diff power_int_add)
  have pos: "(0::rat) < 2 powi (exponentOf x - 52)" by simp
  from exponentOf_bounds(1)[OF assms] show "2 ^ 52 \<le> x / 2 powi (exponentOf x - 52)"
    using pos s by (simp add: le_divide_eq mult.commute)
  from exponentOf_bounds(2)[OF assms] show "x / 2 powi (exponentOf x - 52) \<le> 2 ^ 53"
    using pos s' by (simp add: divide_le_eq mult.commute)
qed

lemma toDouble_lower: assumes "0 < x" shows "2 powi exponentOf x \<le> toDouble x"
proof -
  define s where "s = (2::rat) powi (exponentOf x - 52)"
  define N where "N = roundHalfEven (x / s)"
  have spos: "0 < s" by (simp add: s_def)
  have td: "toDouble x = of_int N * s" using assms by (simp add: toDouble_pos_eq s_def N_def)
  have "(of_int (2 ^ 52) :: rat) \<le> x / s"
    using mantissa_bounds(1)[OF assms] by (simp add: s_def)
  then have "2 ^ 52 \<le> N" unfolding N_def by (rule rhe_ge)
  then have "(of_int (2 ^ 52) :: rat) \<le> of_int N" by (simp only: of_int_le_iff)
  then have "(of_int (2 ^ 52) :: rat) * s \<le> of_int N * s"
    using spos by (intro mult_right_mono) simp_all
  moreover have "(of_int (2 ^ 52) :: rat) * s = 2 powi exponentOf x"
    by (simp add: s_def power_int_diff)
  ultimately show ?thesis by (simp only: td)
qed

lemma toDouble_upper: assumes "0 < x" shows "toDouble x \<le> 2 powi (exponentOf x + 1)"
proof -
  define s where "s = (2::rat) powi (exponentOf x - 52)"
  define N where "N = roundHalfEven (x / s)"
  have spos: "0 < s" by (simp add: s_def)
  have td: "toDouble x = of_int N * s" using assms by (simp add: toDouble_pos_eq s_def N_def)
  have "x / s \<le> (of_int (2 ^ 53) :: rat)"
    using mantissa_bounds(2)[OF assms] by (simp add: s_def)
  then have "N \<le> 2 ^ 53" unfolding N_def by (rule rhe_le)
  then have "(of_int N :: rat) \<le> of_int (2 ^ 53)" by (simp only: of_int_le_iff)
  then have "(of_int N :: rat) * s \<le> of_int (2 ^ 53) * s"
    using spos by (intro mult_right_mono) simp_all
  moreover have "(of_int (2 ^ 53) :: rat) * s = 2 powi (exponentOf x + 1)"
    by (simp add: s_def power_int_diff power_int_add)
  ultimately show ?thesis by (simp only: td)
qed

lemma toDouble_pos: "0 < x \<Longrightarrow> 0 < toDouble x"
proof -
  assume "0 < x"
  from toDouble_lower[OF this] have "(2::rat) powi exponentOf x \<le> toDouble x" .
  moreover have "(0::rat) < 2 powi exponentOf x" by simp
  ultimately show ?thesis by linarith
qed

lemma exponentOf_mono: assumes "0 < x" "x \<le> y" shows "exponentOf x \<le> exponentOf y"
proof -
  from assms have y: "0 < y" by simp
  from exponentOf_bounds(1)[OF assms(1)] exponentOf_bounds(2)[OF y] assms(2)
  have "(2::rat) powi exponentOf x < 2 powi (exponentOf y + 1)" by simp
  then have "exponentOf x < exponentOf y + 1" by (rule pow2_less_cancel)
  then show ?thesis by simp
qed

lemma toDouble_mono: assumes "0 < x" "x \<le> y" shows "toDouble x \<le> toDouble y"
proof (cases "exponentOf x = exponentOf y")
  case True
  have "x / 2 powi (exponentOf y - 52) \<le> y / 2 powi (exponentOf y - 52)"
    using assms(2) by (intro divide_right_mono) simp_all
  then have "roundHalfEven (x / 2 powi (exponentOf y - 52))
             \<le> roundHalfEven (y / 2 powi (exponentOf y - 52))" by (rule rhe_mono)
  then have "(of_int (roundHalfEven (x / 2 powi (exponentOf y - 52))) :: rat)
             \<le> of_int (roundHalfEven (y / 2 powi (exponentOf y - 52)))" by simp
  then have "(of_int (roundHalfEven (x / 2 powi (exponentOf y - 52))) :: rat) * 2 powi (exponentOf y - 52)
             \<le> of_int (roundHalfEven (y / 2 powi (exponentOf y - 52))) * 2 powi (exponentOf y - 52)"
    by (intro mult_right_mono) simp_all
  then show ?thesis using assms True by (simp add: toDouble_pos_eq)
next
  case False
  from assms have y: "0 < y" by simp
  from False exponentOf_mono[OF assms] have "exponentOf x + 1 \<le> exponentOf y" by simp
  then have "(2::rat) powi (exponentOf x + 1) \<le> 2 powi exponentOf y"
    by (intro power_int_increasing) simp_all
  with toDouble_upper[OF assms(1)] toDouble_lower[OF y] show ?thesis by linarith
qed

lemma toDouble_err: assumes "0 < x" shows "\<bar>toDouble x - x\<bar> \<le> x / 2 ^ 53"
proof -
  define s where "s = (2::rat) powi (exponentOf x - 52)"
  define N where "N = (of_int (roundHalfEven (x / s)) :: rat)"
  have spos: "0 < s" by (simp add: s_def)
  have td: "toDouble x = N * s" using assms by (simp add: toDouble_pos_eq s_def N_def)
  have r: "\<bar>N - x / s\<bar> \<le> 1 / 2" unfolding N_def by (rule rhe_err)
  have xs: "x / s * s = x" using spos by simp
  have "\<bar>N * s - x\<bar> = \<bar>(N - x / s) * s\<bar>" by (simp only: left_diff_distrib xs)
  also have "\<dots> = \<bar>N - x / s\<bar> * s" using spos by (simp add: abs_mult)
  also have "\<dots> \<le> 1 / 2 * s" using r spos by (intro mult_right_mono) simp_all
  finally have e: "\<bar>toDouble x - x\<bar> \<le> s / 2" by (simp add: td)
  have "(of_int (2 ^ 52) :: rat) \<le> x / s" using mantissa_bounds(1)[OF assms] by (simp add: s_def)
  then have "of_int (2 ^ 52) * s \<le> x" using spos by (simp only: le_divide_eq if_True)
  then have "s / 2 \<le> x / 2 ^ 53" by simp
  with e show ?thesis by linarith
qed

lemma toDouble_eqI:
  assumes "0 < x" "2 powi (e + 52) \<le> x" "x < 2 powi (e + 53)"
      and "\<bar>x / 2 powi e - of_int n\<bar> < 1 / 2"
  shows "toDouble x = of_int n * 2 powi e"
proof -
  have "exponentOf x = e + 52"
    using assms(1,2,3) by (intro exponentOf_eqI) (simp_all add: add.assoc)
  then have "toDouble x = of_int (roundHalfEven (x / 2 powi e)) * 2 powi e"
    using assms(1) by (simp add: toDouble_pos_eq)
  with rhe_eqI[OF assms(4)] show ?thesis by simp
qed

lemma div_7_25: "jsDiv 7 25 = 5044031582654956 / 2 ^ 54"
proof -
  have "toDouble (7 / 25) = of_int 5044031582654956 * 2 powi (- 54)"
    by (rule toDouble_eqI) simp_all
  then show ?thesis by (simp add: jsDiv_def power_int_minus_divide)
qed

lemma pct_7_25: "jsMul (jsDiv 7 25) 100 = 7881299347898369 / 2 ^ 48"
proof -
  have "toDouble (5044031582654956 / 2 ^ 54 * 100) = of_int 7881299347898369 * 2 powi (- 48)"
    by (rule toDouble_eqI) simp_all
  then show ?thesis by (simp add: jsMul_def div_7_25 power_int_minus_divide)
qed

lemma div_6_10: "jsDiv 6 10 = 5404319552844595 / 2 ^ 53"
proof -
  have "toDouble (6 / 10) = of_int 5404319552844595 * 2 powi (- 53)"
    by (rule toDouble_eqI) simp_all
  then show ?thesis by (simp add: jsDiv_def power_int_minus_divide)
qed

lemma pct_6_10: "jsMul (jsDiv 6 10) 100 = 60"
proof -
  have "toDouble (5404319552844595 / 2 ^ 53 * 100) = of_int 8444249301319680 * 2 powi (- 47)"
    by (rule toDouble_eqI) simp_all
  then show ?thesis by (simp add: jsMul_def div_6_10 power_int_minus_divide)
qed

lemma toDouble_1: "toDouble 1 = 1"
proof -
  have "toDouble 1 = of_int (2 ^ 52) * 2 powi (- 52)"
    by (rule toDouble_eqI) simp_all
  then show ?thesis by (simp add: power_int_minus_divide)
qed

lemma toDouble_100: "toDouble 100 = 100"
proof -
  have "toDouble 100 = of_int 7036874417766400 * 2 powi (- 46)"
    by (rule toDouble_eqI) simp_all
  then show ?thesis by (simp add: power_int_minus_divide)
qed

section \<open>Properties of the store and the statistics\<close>

text \<open>The percentage of \<open>a\<close> attended classes among \<open>t\<close>, as both statistics functions
  compute it.\<close>

lemma pct_props:
  fixes a t :: nat
  assumes "a \<le> t"
  defines "p \<equiv> (if int t > 0 then jsMul (jsDiv (of_int (int a)) (of_int (int t))) 100 else 0)"
  shows "0 \<le> p" and "p \<le> 100" and "p = 0 \<longleftrightarrow> a = 0"
proof -
  have z: "p = 0" if "a = 0"
    using that by (simp add: p_def jsMul_def jsDiv_def toDouble_zero)
  have pos: "0 < p \<and> p \<le> 100" if a: "0 < a"
  proof -
    from a assms(1) have t: "0 < t" by simp
    define x where "x = (of_nat a :: rat) / of_nat t"
    have x: "0 < x" "x \<le> 1" using a t assms(1) by (simp_all add: x_def)
    define q where "q = toDouble x"
    have q: "0 < q" "q \<le> 1"
      using toDouble_pos[OF x(1)] toDouble_mono[OF x] by (simp_all add: q_def toDouble_1)
    then have y: "0 < q * 100" "q * 100 \<le> 100" by simp_all
    have "0 < toDouble (q * 100)" "toDouble (q * 100) \<le> 100"
      using toDouble_pos[OF y(1)] toDouble_mono[OF y] by (simp_all add: toDouble_100)
    moreover have "p = toDouble (q * 100)"
      using t by (simp add: p_def jsMul_def jsDiv_def q_def x_def)
    ultimately show ?thesis by simp
  qed
  show "0 \<le> p" using z pos by (cases "a = 0") auto
  show "p \<le> 100" using z pos by (cases "a = 0") auto
  show "p = 0 \<longleftrightarrow> a = 0" using z pos by (cases "a = 0") auto
qed

text \<open>The two roundings together change the exact percentage by at most the fraction
  \<open>1 / 2 ^ 51\<close> of it.\<close>

lemma pct_err:
  fixes a t :: nat
  assumes "0 < t"
  shows "\<bar>jsMul (jsDiv (of_int (int a)) (of_int (int t))) 100
           - of_int (int a) / of_int (int t) * 100\<bar>
         \<le> (of_int (int a) / of_int (int t) * 100) / 2 ^ 51"
proof (cases "a = 0")
  case True
  then show ?thesis by (simp add: jsMul_def jsDiv_def toDouble_zero)
next
  case False
  define x where "x = (of_nat a :: rat) / of_nat t"
  have x: "0 < x" using False assms by (simp add: x_def)
  define q where "q = toDouble x"
  have q: "0 < q" using toDouble_pos[OF x] by (simp add: q_def)
  define u where "u = (1::rat) / 2 ^ 53"
  have u: "0 < u" "u \<le> 1" "4 * u = 1 / 2 ^ 51" by (simp_all add: u_def)
  have e1: "\<bar>q - x\<bar> \<le> x * u" using toDouble_err[OF x] by (simp add: q_def u_def)
  have y: "0 < q * 100" using q by simp
  define p where "p = toDouble (q * 100)"
  have e2: "\<bar>p - q * 100\<bar> \<le> q * 100 * u" using toDouble_err[OF y] by (simp add: p_def u_def)
  have "x * u \<le> x * 1" using x u by (intro mult_left_mono) simp_all
  with e1 have q2: "q \<le> 2 * x" by linarith
  have "q * u \<le> (2 * x) * u" using q2 u by (intro mult_right_mono) simp_all
  then have e3: "q * 100 * u \<le> 200 * (x * u)" by (simp add: mult_ac)
  have "\<bar>p - x * 100\<bar> \<le> \<bar>p - q * 100\<bar> + \<bar>q - x\<bar> * 100"
    by (simp add: abs_if split: if_splits)
  with e1 e2 e3 have "\<bar>p - x * 100\<bar> \<le> 300 * (x * u)" by linarith
  also have "\<dots> \<le> 400 * (x * u)" using x u by simp
  also have "\<dots> = x * 100 * (4 * u)" by simp
  also have "\<dots> = x * 100 / 2 ^ 51" by (simp only: u times_divide_eq_right mult_1_right)
  finally have "\<bar>p - x * 100\<bar> \<le> x * 100 / 2 ^ 51" .
  then show ?thesis by (simp add: p_def q_def x_def jsMul_def jsDiv_def)
qed

lemma twentyFive_counts:
  "length (getAttendanceRecords twentyFiveRecordsStorage) = 25"
  "length (filter (\<lambda>r. status r = present) (getAttendanceRecords twentyFiveRecordsStorage)) = 7"
  by (simp_all add: twentyFiveRecordsStorage_def getAttendanceRecords_def twentyFiveRecords_def)

text \<open>
  Claim C1 as stated fails for the percentage: with 25 records of which 7 are present
  the code returns 28.000000000000004, the double \<open>7881299347898369 / 2 ^ 48\<close>, and not
  the quotient 7 / 25 * 100 = 28.
\<close>

theorem C1_counterexample:
  "attendancePercentage (calculateAttendanceStats twentyFiveRecordsStorage)
     \<noteq> of_int (attendedClasses (calculateAttendanceStats twentyFiveRecordsStorage))
         / of_int (totalClasses (calculateAttendanceStats twentyFiveRecordsStorage)) * 100"
  by (simp add: calculateAttendanceStats_def Let_def twentyFive_counts pct_7_25)

text \<open>
  Claim C1, amended. For every store, the overall statistics count all attendance records:
  the total is their number, the attended count is the number of those with status
  \<open>present\<close>, and the missed count is the difference. The percentage is 0 when the total
  is 0, and otherwise the double that JavaScript computes for attended / total * 100: the
  quotient rounded to the nearest double, times 100, rounded again, which differs from the
  exact value by at most the fraction \<open>1 / 2 ^ 51\<close> of it. For every subject id the
  per-subject statistics are the same four values over the records of that subject only.
\<close>

theorem C1_stats_values:
  "totalClasses (calculateAttendanceStats ls) = int (length (getAttendanceRecords ls))
   \<and> attendedClasses (calculateAttendanceStats ls)
        = int (length (filter (\<lambda>r. status r = present) (getAttendanceRecords ls)))
   \<and> missedClasses (calculateAttendanceStats ls)
        = totalClasses (calculateAttendanceStats ls) - attendedClasses (calculateAttendanceStats ls)
   \<and> attendancePercentage (calculateAttendanceStats ls)
        = (if totalClasses (calculateAttendanceStats ls) = 0 then 0
           else jsMul (jsDiv (of_int (attendedClasses (calculateAttendanceStats ls)))
                             (of_int (totalClasses (calculateAttendanceStats ls)))) 100)
   \<and> (totalClasses (calculateAttendanceStats ls) \<noteq> 0 \<longrightarrow>
        \<bar>attendancePercentage (calculateAttendanceStats ls)
           - of_int (attendedClasses (calculateAttendanceStats ls))
             / of_int (totalClasses (calculateAttendanceStats ls)) * 100\<bar>
        \<le> (of_int (attendedClasses (calculateAttendanceStats ls))
             / of_int (totalClasses (calculateAttendanceStats ls)) * 100) / 2 ^ 51)
   \<and> totalClasses (getSubjectAttendance ls sid)
        = int (length (filter (\<lambda>r. subjectId r = sid) (getAttendanceRecords ls)))
   \<and> attendedClasses (getSubjectAttendance ls sid)
        = int (length (filter (\<lambda>r. status r = present)
                 (filter (\<lambda>r. subjectId r = sid) (getAttendanceRecords ls))))
   \<and> missedClasses (getSubjectAttendance ls sid)
        = totalClasses (getSubjectAttendance ls sid) - attendedClasses (getSubjectAttendance ls sid)
   \<and> attendancePercentage (getSubjectAttendance ls sid)
        = (if totalClasses (getSubjectAttendance ls sid) = 0 then 0
           else jsMul (jsDiv (of_int (attendedClasses (getSubjectAttendance ls sid)))
                             (of_int (totalClasses (getSubjectAttendance ls sid)))) 100)
   \<and> (totalClasses (getSubjectAttendance ls sid) \<noteq> 0 \<longrightarrow>
        \<bar>attendancePercentage (getSubjectAttendance ls sid)
           - of_int (attendedClasses (getSubjectAttendance ls sid))
             / of_int (totalClasses (getSubjectAttendance ls sid)) * 100\<bar>
        \<le> (of_int (attendedClasses (getSubjectAttendance ls sid))
             / of_int (totalClasses (getSubjectAttendance ls sid)) * 100) / 2 ^ 51)"
proof -
  have e: "xs \<noteq> [] \<Longrightarrow>
      \<bar>jsMul (jsDiv (of_int (int (length (filter P xs)))) (of_int (int (length xs)))) 100
         - of_int (int (length (filter P xs))) / of_int (int (length xs)) * 100\<bar>
      \<le> (of_int (int (length (filter P xs))) / of_int (int (length xs)) * 100) / 2 ^ 51"
    for P and xs :: "AttendanceRecord list"
    by (rule pct_err) simp
  show ?thesis
    using e[of "getAttendanceRecords ls" "\<lambda>r. status r = present"]
          e[of "filter (\<lambda>r. subjectId r = sid) (getAttendanceRecords ls)" "\<lambda>r. status r = present"]
    by (simp add: calculateAttendanceStats_def getSubjectAttendance_def Let_def del: filter_filter)
qed

lemma tenRecords_counts:
  "length (filter (\<lambda>r. subjectId r = ''subject-0'') (getAttendanceRecords tenRecordsStorage)) = 10"
  "length (filter (\<lambda>r. status r = present)
     (filter (\<lambda>r. subjectId r = ''subject-0'') (getAttendanceRecords tenRecordsStorage))) = 6"
  by (simp_all add: tenRecordsStorage_def getAttendanceRecords_def tenRecords_def)

text \<open>The example of ten records of one subject, six of them present: here both
  roundings give the exact value.\<close>

theorem C1_witness:
  "totalClasses (getSubjectAttendance tenRecordsStorage ''subject-0'') = 10
   \<and> totalClasses (getSubjectAttendance tenRecordsStorage ''subject-0'') \<noteq> 0
   \<and> attendedClasses (getSubjectAttendance tenRecordsStorage ''subject-0'') = 6
   \<and> missedClasses (getSubjectAttendance tenRecordsStorage ''subject-0'') = 4
   \<and> attendancePercentage (getSubjectAttendance tenRecordsStorage ''subject-0'') = 60
   \<and> \<bar>attendancePercentage (getSubjectAttendance tenRecordsStorage ''subject-0'')
        - of_int (attendedClasses (getSubjectAttendance tenRecordsStorage ''subject-0''))
          / of_int (totalClasses (getSubjectAttendance tenRecordsStorage ''subject-0'')) * 100\<bar>
      \<le> (of_int (attendedClasses (getSubjectAttendance tenRecordsStorage ''subject-0''))
           / of_int (totalClasses (getSubjectAttendance tenRecordsStorage ''subject-0'')) * 100)
         / 2 ^ 51"
proof -
  let ?s = "getSubjectAttendance tenRecordsStorage ''subject-0''"
  note c = C1_stats_values[of tenRecordsStorage "''subject-0''"]
  from c have t0: "totalClasses ?s
      = int (length (filter (\<lambda>r. subjectId r = ''subject-0'')
               (getAttendanceRecords tenRecordsStorage)))"
    and a0: "attendedClasses ?s
      = int (length (filter (\<lambda>r. status r = present)
               (filter (\<lambda>r. subjectId r = ''subject-0'')
                  (getAttendanceRecords tenRecordsStorage))))"
    by blast+
  have t: "totalClasses ?s = 10" and a: "attendedClasses ?s = 6"
    by (simp_all add: t0 a0 tenRecords_counts del: filter_filter)
  from c have m: "missedClasses ?s = totalClasses ?s - attendedClasses ?s"
    and p: "attendancePercentage ?s
        = (if totalClasses ?s = 0 then 0
           else jsMul (jsDiv (of_int (attendedClasses ?s)) (of_int (totalClasses ?s))) 100)"
    and b: "totalClasses ?s \<noteq> 0 \<longrightarrow>
        \<bar>attendancePercentage ?s - of_int (attendedClasses ?s) / of_int (totalClasses ?s) * 100\<bar>
        \<le> (of_int (attendedClasses ?s) / of_int (totalClasses ?s) * 100) / 2 ^ 51"
    by blast+
  from t have n: "totalClasses ?s \<noteq> 0" by simp
  from p t a have "attendancePercentage ?s = 60" by (simp add: pct_6_10)
  with t a m b n show ?thesis by simp
qed

text \<open>
  Claim C3 as stated fails: with a single record of status \<open>absent\<close> the percentage is 0
  although the total is 1.
\<close>

theorem C3_counterexample:
  "attendancePercentage (calculateAttendanceStats absentOnlyStorage) = 0
   \<and> totalClasses (calculateAttendanceStats absentOnlyStorage) \<noteq> 0"
  by (simp add: calculateAttendanceStats_def getAttendanceRecords_def absentOnlyStorage_def
        demoRecord_def Let_def jsMul_def jsDiv_def toDouble_zero)

text \<open>
  Claim C3, amended. For every store the percentage of the overall and of the per-subject
  statistics lies between 0 and 100, it is 0 exactly when the attended count is 0, and in
  particular it is 0 when the total is 0.
\<close>

theorem C3_percentage_range:
  "0 \<le> attendancePercentage (calculateAttendanceStats ls)
   \<and> attendancePercentage (calculateAttendanceStats ls) \<le> 100
   \<and> (attendancePercentage (calculateAttendanceStats ls) = 0
        \<longleftrightarrow> attendedClasses (calculateAttendanceStats ls) = 0)
   \<and> 0 \<le> attendancePercentage (getSubjectAttendance ls sid)
   \<and> attendancePercentage (getSubjectAttendance ls sid) \<le> 100
   \<and> (attendancePercentage (getSubjectAttendance ls sid) = 0
        \<longleftrightarrow> attendedClasses (getSubjectAttendance ls sid) = 0)
   \<and> (totalClasses (calculateAttendanceStats ls) = 0
        \<longrightarrow> attendancePercentage (calculateAttendanceStats ls) = 0)
   \<and> (totalClasses (getSubjectAttendance ls sid) = 0
        \<longrightarrow> attendancePercentage (getSubjectAttendance ls sid) = 0)"
proof -
  have le: "length (filter P xs) \<le> length xs" for P and xs :: "AttendanceRecord list"
    by simp
  note A = pct_props[OF le[of "\<lambda>r. status r = present" "getAttendanceRecords ls"]]
  note B = pct_props[OF le[of "\<lambda>r. status r = present" "filter (\<lambda>r. subjectId r = sid) (getAttendanceRecords ls)"]]
  show ?thesis
    unfolding calculateAttendanceStats_def getSubjectAttendance_def Let_def
    using A B by simp
qed

text \<open>The ten example records: a percentage of 60, with six attended.\<close>

theorem C3_witness:
  "attendedClasses (getSubjectAttendance tenRecordsStorage ''subject-0'') \<noteq> 0
   \<and> attendancePercentage (getSubjectAttendance tenRecordsStorage ''subject-0'') \<noteq> 0
   \<and> attendancePercentage (getSubjectAttendance tenRecordsStorage ''subject-0'') \<le> 100
   \<and> totalClasses (calculateAttendanceStats emptyStorage) = 0
   \<and> attendancePercentage (calculateAttendanceStats emptyStorage) = 0"
proof -
  have a: "attendedClasses (getSubjectAttendance tenRecordsStorage ''subject-0'') \<noteq> 0"
    by (simp add: getSubjectAttendance_def Let_def tenRecords_counts del: filter_filter)
  have t: "totalClasses (calculateAttendanceStats emptyStorage) = 0"
    by (simp add: calculateAttendanceStats_def Let_def getAttendanceRecords_def emptyStorage_def)
  from C3_percentage_range[of tenRecordsStorage "''subject-0''"] a
  have "attendancePercentage (getSubjectAttendance tenRecordsStorage ''subject-0'') \<noteq> 0
        \<and> attendancePercentage (getSubjectAttendance tenRecordsStorage ''subject-0'') \<le> 100"
    by blast
  moreover from C3_percentage_range[of emptyStorage "''subject-0''"] t
  have "attendancePercentage (calculateAttendanceStats emptyStorage) = 0" by blast
  ultimately show ?thesis using a t by blast
qed

text \<open>
  Claim C6 as stated fails for the key \<^verbatim>\<open>notifications_scheduled\<close>: once notifications
  have been switched on, the key is still present after all data is cleared.
\<close>

theorem C6_counterexample:
  "notifications_scheduled
     (clearAllData (toggleNotifications True ''granted'' True True emptyStorage))
     \<noteq> None"
  by (simp add: clearAllData_def toggleNotifications_def emptyStorage_def)

text \<open>
  Claim C6, amended. Clearing all data removes the three collection keys and leaves the
  notification flag as it was; afterwards each of the three collections reads as the empty
  list and the overall statistics are all zero.
\<close>

theorem C6_clear_all:
  "attendflow_subjects (clearAllData ls) = None
   \<and> attendflow_timetable (clearAllData ls) = None
   \<and> attendflow_attendance (clearAllData ls) = None
   \<and> notifications_scheduled (clearAllData ls) = notifications_scheduled ls
   \<and> getTimetable (clearAllData ls) = []
   \<and> getSubjects (clearAllData ls) = []
   \<and> getAttendanceRecords (clearAllData ls) = []
   \<and> calculateAttendanceStats (clearAllData ls)
        = \<lparr>totalClasses = 0, attendedClasses = 0, missedClasses = 0, attendancePercentage = 0\<rparr>"
  by (simp add: clearAllData_def getTimetable_def getSubjects_def getAttendanceRecords_def
        calculateAttendanceStats_def Let_def)

text \<open>
  Claim C7. The number of further present-markings a subject needs is 0 when its total is
  0 and otherwise the larger of 0 and ceil(75 * total / 100) - attended; for an attended
  count that is not negative this is the larger of 0 and ceil(75 * total / 100) - attended
  in every case. For a total of 10 and 6 attended it is 2.
\<close>

theorem C7_required:
  "calculateRequiredClasses subj =
     (if s_totalClasses subj = 0 then 0
      else max 0 (\<lceil>75 * real_of_int (s_totalClasses subj) / 100\<rceil> - s_attendedClasses subj))
   \<and> (0 \<le> s_attendedClasses subj \<longrightarrow>
        calculateRequiredClasses subj =
          max 0 (\<lceil>75 * real_of_int (s_totalClasses subj) / 100\<rceil> - s_attendedClasses subj))
   \<and> (s_totalClasses subj = 10 \<and> s_attendedClasses subj = 6 \<longrightarrow> calculateRequiredClasses subj = 2)"
proof -
  have c: "\<lceil>(75 * 10 / 100 :: real)\<rceil> = 8" by (simp add: ceiling_eq_iff)
  show ?thesis
    using c by (auto simp add: calculateRequiredClasses_def Let_def)
qed

text \<open>The example subject with ten classes, six of them attended.\<close>

theorem C7_witness:
  "0 \<le> s_attendedClasses tenSubject
   \<and> s_totalClasses tenSubject = 10 \<and> s_attendedClasses tenSubject = 6
   \<and> calculateRequiredClasses tenSubject = 2"
proof -
  have h: "s_totalClasses tenSubject = 10 \<and> s_attendedClasses tenSubject = 6"
    by (simp add: tenSubject_def)
  with C7_required[of tenSubject] have "calculateRequiredClasses tenSubject = 2" by blast
  with h show ?thesis by simp
qed

section \<open>Properties of the attendance page\<close>

lemma set_insertBy: "set (insertBy cmp x ys) = insert x (set ys)"
  by (induction ys) auto

lemma set_sortBy: "set (sortBy cmp xs) = set xs"
  unfolding sortBy_def by (induction xs) (simp_all add: set_insertBy)

lemma storage_load: "storage (loadAttendanceData pf st) = storage st"
  by (simp add: loadAttendanceData_def Let_def)

lemma selectedDate_load: "selectedDate (loadAttendanceData pf st) = selectedDate st"
  by (simp add: loadAttendanceData_def Let_def)


lemma load_shown:
  "cls \<in> set (todayClasses (loadAttendanceData pf st)) \<Longrightarrow>
   shownFor (loadAttendanceData pf st) cls"
  unfolding shownFor_def storage_load selectedDate_load
  by (auto simp: loadAttendanceData_def Let_def set_sortBy)

lemma records_save: "getAttendanceRecords (saveAttendanceRecords rs ls) = rs"
  by (simp add: getAttendanceRecords_def saveAttendanceRecords_def)

lemma mark_cases:
  "snd (markAttendance pf now rnd cls s st) =
     (case find (\<lambda>x. s_name x = subject cls) (subjects st) of
        None \<Rightarrow> st
      | Some subj \<Rightarrow>
          loadAttendanceData pf (st\<lparr>storage := saveAttendanceRecords
            (if attendanceId cls = None \<or> attendanceId cls = Some []
             then getAttendanceRecords (storage st) @ [newRecord now rnd subj cls s st]
             else map (setStatus (the (attendanceId cls)) s) (getAttendanceRecords (storage st)))
            (storage st)\<rparr>))"
  by (auto simp: markAttendance_def Let_def newRecord_def setStatus_def[abs_def] split: option.splits)

lemma pairOf_setStatus: "pairOf (setStatus aid s r) = pairOf r"
  by (simp add: setStatus_def pairOf_def)

lemma a_id_setStatus: "a_id (setStatus aid s r) = a_id r"
  by (simp add: setStatus_def)

lemma map_pairOf_setStatus: "map pairOf (map (setStatus aid s) rs) = map pairOf rs"
  by (simp add: pairOf_setStatus)

lemma find_None_pair:
  "find (\<lambda>r. date r = d \<and> timetableEntryId r = e) rs = None \<Longrightarrow> (e, d) \<notin> set (map pairOf rs)"
  by (auto simp: find_None_iff pairOf_def)

lemma find_Some_id:
  "find P rs = Some r \<Longrightarrow> r \<in> set rs"
  by (auto simp: find_Some_iff)

lemma pageInv_load:
  assumes "distinct (map pairOf (getAttendanceRecords (storage st)))"
      and "\<forall>r \<in> set (getAttendanceRecords (storage st)). a_id r \<noteq> []"
  shows "pageInv (loadAttendanceData pf st)"
  unfolding pageInv_def using assms load_shown by (simp add: storage_load)

lemma pageInv_mark:
  assumes inv: "pageInv st" and cls: "cls \<in> set (todayClasses st)"
  shows "pageInv (snd (markAttendance pf now rnd cls s st))"
proof (cases "find (\<lambda>x. s_name x = subject cls) (subjects st)")
  case None
  then show ?thesis using inv by (simp add: mark_cases)
next
  case (Some subj)
  let ?rs = "getAttendanceRecords (storage st)"
  from inv cls have shown: "shownFor st cls" by (simp add: pageInv_def)
  from inv have dist: "distinct (map pairOf ?rs)" and ids: "\<forall>r \<in> set ?rs. a_id r \<noteq> []"
    by (simp_all add: pageInv_def)
  show ?thesis
  proof (cases "attendanceId cls")
    case None
    with shown have "find (\<lambda>r. date r = selectedDate st \<and> timetableEntryId r = t_id cls) ?rs = None"
      by (simp add: shownFor_def)
    then have "(t_id cls, selectedDate st) \<notin> set (map pairOf ?rs)" by (rule find_None_pair)
    then have "distinct (map pairOf (?rs @ [newRecord now rnd subj cls s st]))"
      using dist by (simp add: pairOf_def newRecord_def)
    moreover have "\<forall>r \<in> set (?rs @ [newRecord now rnd subj cls s st]). a_id r \<noteq> []"
      using ids by (simp add: newRecord_def)
    ultimately show ?thesis using Some None
      by (simp add: mark_cases pageInv_load records_save)
  next
    case (Some aid)
    with shown obtain r where "find (\<lambda>r. date r = selectedDate st \<and> timetableEntryId r = t_id cls) ?rs = Some r"
       and "aid = a_id r"
      by (cases "find (\<lambda>r. date r = selectedDate st \<and> timetableEntryId r = t_id cls) ?rs")
         (auto simp: shownFor_def)
    then have "aid \<noteq> []" using ids find_Some_id by fastforce
    moreover have "distinct (map pairOf (map (setStatus aid s) ?rs))"
      using dist by (simp only: map_pairOf_setStatus)
    moreover have "\<forall>r \<in> set (map (setStatus aid s) ?rs). a_id r \<noteq> []"
      using ids by (simp add: a_id_setStatus)
    ultimately show ?thesis using \<open>find (\<lambda>x. s_name x = subject cls) (subjects st) = Some subj\<close> Some
      by (simp add: mark_cases pageInv_load records_save)
  qed
qed

lemma records_other_pages:
  "attendflow_attendance ls' = attendflow_attendance ls \<Longrightarrow>
   getAttendanceRecords ls' = getAttendanceRecords ls"
  by (simp add: getAttendanceRecords_def)

lemma records_clear: "getAttendanceRecords (clearAllData ls) = []"
  by (simp add: getAttendanceRecords_def clearAllData_def)

lemma reachable_pageInv: "reachable pf st \<Longrightarrow> pageInv st"
proof (induction rule: reachable.induct)
  case (mount st)
  then show ?case by (simp add: pageInv_load)
next
  case (mark st classItem now rnd st_status)
  then show ?case by (simp add: pageInv_mark)
next
  case (select_date st d)
  then show ?case by (intro pageInv_load) (simp_all add: pageInv_def)
next
  case (other_pages st ls)
  from other_pages.hyps(2)
  have "getAttendanceRecords ls = getAttendanceRecords (storage st)"
    by (rule records_other_pages)
  with other_pages.IH show ?case by (intro pageInv_load) (simp_all add: pageInv_def)
next
  case (clear_all st)
  then show ?case by (intro pageInv_load) (simp_all add: records_clear)
qed

lemma distinct_pair_filter:
  "distinct (map pairOf rs) \<Longrightarrow>
   length (filter (\<lambda>r. timetableEntryId r = e \<and> date r = d) rs) \<le> 1"
proof (induction rs)
  case Nil
  then show ?case by simp
next
  case (Cons r rs)
  show ?case
  proof (cases "timetableEntryId r = e \<and> date r = d")
    case True
    from Cons.prems have "pairOf r \<notin> pairOf ` set rs" by simp
    with True have "\<forall>x \<in> set rs. \<not> (timetableEntryId x = e \<and> date x = d)"
      by (auto simp: pairOf_def image_iff)
    then have "filter (\<lambda>r. timetableEntryId r = e \<and> date r = d) rs = []"
      by (simp add: filter_empty_conv)
    with True show ?thesis by simp
  next
    case False
    with Cons show ?thesis by auto
  qed
qed

lemma selectedDate_mark: "selectedDate (snd (markAttendance pf now rnd cls s st)) = selectedDate st"
  by (simp add: mark_cases selectedDate_load split: option.splits)

lemma records_mark:
  "getAttendanceRecords (storage (snd (markAttendance pf now rnd cls s st))) =
     (case find (\<lambda>x. s_name x = subject cls) (subjects st) of
        None \<Rightarrow> getAttendanceRecords (storage st)
      | Some subj \<Rightarrow>
          if attendanceId cls = None \<or> attendanceId cls = Some []
          then getAttendanceRecords (storage st) @ [newRecord now rnd subj cls s st]
          else map (setStatus (the (attendanceId cls)) s) (getAttendanceRecords (storage st)))"
  by (simp add: mark_cases storage_load records_save split: option.splits)

lemma find_filter_hd: "find P xs = Some r \<Longrightarrow> \<exists>ys. filter P xs = r # ys"
  by (induction xs) (auto split: if_splits)

lemma find_single:
  assumes "find P xs = Some r" and "length (filter P xs) \<le> 1"
  shows "filter P xs = [r]"
proof -
  from find_filter_hd[OF assms(1)] obtain ys where "filter P xs = r # ys" by auto
  with assms(2) show ?thesis by simp
qed

lemma mark_pair_present:
  assumes found: "find (\<lambda>x. s_name x = subject cls) (subjects st) = Some subj"
      and shown: "shownFor st cls"
  shows "\<exists>r \<in> set (getAttendanceRecords (storage (snd (markAttendance pf now rnd cls s st)))).
           timetableEntryId r = t_id cls \<and> date r = selectedDate st"
proof (cases "attendanceId cls = None \<or> attendanceId cls = Some []")
  case True
  then show ?thesis using found by (auto simp: records_mark newRecord_def)
next
  case False
  then obtain aid where aid: "attendanceId cls = Some aid" by auto
  with shown obtain r where
    f: "find (\<lambda>r. date r = selectedDate st \<and> timetableEntryId r = t_id cls)
          (getAttendanceRecords (storage st)) = Some r"
    by (cases "find (\<lambda>r. date r = selectedDate st \<and> timetableEntryId r = t_id cls)
          (getAttendanceRecords (storage st))") (auto simp: shownFor_def)
  then have "r \<in> set (getAttendanceRecords (storage st))"
    and "timetableEntryId r = t_id cls" and "date r = selectedDate st"
    by (auto simp: find_Some_iff)
  then have "setStatus aid s r \<in> set (map (setStatus aid s) (getAttendanceRecords (storage st)))"
    and "timetableEntryId (setStatus aid s r) = t_id cls"
    and "date (setStatus aid s r) = selectedDate st"
    by (auto simp: setStatus_def)
  then show ?thesis using found False aid by (auto simp: records_mark)
qed

lemma find_exists: "\<exists>x \<in> set xs. P x \<Longrightarrow> \<exists>r. find P xs = Some r \<and> P r \<and> r \<in> set xs"
  by (induction xs) auto

lemma second_mark:
  assumes inv: "pageInv st1" and cls: "cls' \<in> set (todayClasses st1)"
      and found: "find (\<lambda>x. s_name x = subject cls') (subjects st1) = Some subj"
      and ex: "\<exists>r \<in> set (getAttendanceRecords (storage st1)).
                 timetableEntryId r = t_id cls' \<and> date r = selectedDate st1"
  shows "\<exists>r. filter (\<lambda>r. timetableEntryId r = t_id cls' \<and> date r = selectedDate st1)
                (getAttendanceRecords (storage (snd (markAttendance pf now rnd cls' s st1)))) = [r]
              \<and> status r = s"
proof -
  let ?rs = "getAttendanceRecords (storage st1)"
  let ?P = "\<lambda>r. timetableEntryId r = t_id cls' \<and> date r = selectedDate st1"
  let ?Q = "\<lambda>r. date r = selectedDate st1 \<and> timetableEntryId r = t_id cls'"
  from ex have "\<exists>r \<in> set ?rs. ?Q r" by auto
  from find_exists[OF this] obtain r1 where f: "find ?Q ?rs = Some r1" and r1: "r1 \<in> set ?rs"
    by blast
  from inv cls have "shownFor st1 cls'" by (simp add: pageInv_def)
  with f have aid: "attendanceId cls' = Some (a_id r1)" by (simp add: shownFor_def)
  from inv r1 have ne: "a_id r1 \<noteq> []" by (simp add: pageInv_def)
  have PQ: "?P = ?Q" by auto
  have lenQ: "length (filter ?Q ?rs) \<le> 1"
    using distinct_pair_filter[of ?rs "t_id cls'" "selectedDate st1"] inv
    by (simp add: pageInv_def conj_commute)
  have oneQ: "filter ?Q ?rs = [r1]" by (rule find_single[OF f lenQ])
  have one: "filter ?P ?rs = [r1]" using oneQ by (simp add: conj_commute)
  have keep: "?P \<circ> setStatus (a_id r1) s = ?P" by (auto simp: setStatus_def fun_eq_iff)
  have "filter ?P (map (setStatus (a_id r1) s) ?rs) = map (setStatus (a_id r1) s) (filter ?P ?rs)"
    by (simp only: filter_map keep)
  with one have "filter ?P (map (setStatus (a_id r1) s) ?rs) = [setStatus (a_id r1) s r1]" by simp
  moreover have "status (setStatus (a_id r1) s r1) = s" by (simp add: setStatus_def)
  ultimately show ?thesis using found aid ne by (simp add: records_mark)
qed

lemma lower_Monday: "toLowerCase ''Monday'' = ''monday''"
  by code_simp

lemma demoPage_eq:
  "demoPage = \<lparr>storage = demoStorage, selectedDate = ''2024-01-01'',
      todayClasses = [demoClass None None], subjects = [demoSubject]\<rparr>"
  by (simp add: demoPage_def loadAttendanceData_def Let_def demoPlatform_def demoStorage_def
      getTimetable_def getAttendanceRecords_def getSubjects_def demoEntry_def lower_Monday
      sortBy_def demoClass_def)

lemma demoPage1_eq:
  "demoPage1 = \<lparr>storage = demoStorage\<lparr>attendflow_attendance := Some [demoRecord present]\<rparr>,
      selectedDate = ''2024-01-01'',
      todayClasses = [demoClass (Some ''attendance-1700000000000-q1w2e3r4t'') (Some present)],
      subjects = [demoSubject]\<rparr>"
  by (simp add: demoPage1_def demoPage_eq markAttendance_def loadAttendanceData_def Let_def demoPlatform_def demoStorage_def
      getTimetable_def getAttendanceRecords_def getSubjects_def demoEntry_def lower_Monday
      sortBy_def demoClass_def demoSubject_def saveAttendanceRecords_def demoRecord_def)

lemma reachable_demoPage: "reachable demoPlatform demoPage"
  unfolding demoPage_def
  by (rule reachable.mount) (simp add: getAttendanceRecords_def demoStorage_def)

text \<open>
  Within one window: in every state that is reachable in the sense above and for every
  (schedule entry, date) pair the store holds at most one record for the pair. Moreover,
  when a displayed class is marked, and the class displayed for the same entry is marked
  again, both calls finding their subject, then after the second call the store holds
  exactly one record for the pair of that entry and the selected date, and its status is
  the one given last.
\<close>

lemma one_window_one_record_per_pair:
  assumes "reachable pf st"
  shows "(\<forall>e d. length (filter (\<lambda>r. timetableEntryId r = e \<and> date r = d)
                    (getAttendanceRecords (storage st))) \<le> 1)
       \<and> (\<forall>cls cls' s1 s2 now1 rnd1 now2 rnd2 st1 st2.
            cls \<in> set (todayClasses st)
            \<and> find (\<lambda>x. s_name x = subject cls) (subjects st) \<noteq> None
            \<and> st1 = snd (markAttendance pf now1 rnd1 cls s1 st)
            \<and> cls' \<in> set (todayClasses st1) \<and> t_id cls' = t_id cls
            \<and> find (\<lambda>x. s_name x = subject cls') (subjects st1) \<noteq> None
            \<and> st2 = snd (markAttendance pf now2 rnd2 cls' s2 st1)
            \<longrightarrow> (\<exists>r. filter (\<lambda>r. timetableEntryId r = t_id cls \<and> date r = selectedDate st)
                        (getAttendanceRecords (storage st2)) = [r]
                     \<and> status r = s2))"
proof (intro conjI allI impI)
  fix e d
  from assms have "pageInv st" by (rule reachable_pageInv)
  then show "length (filter (\<lambda>r. timetableEntryId r = e \<and> date r = d)
                    (getAttendanceRecords (storage st))) \<le> 1"
    by (intro distinct_pair_filter) (simp add: pageInv_def)
next
  fix cls cls' s1 s2 now1 rnd1 now2 rnd2 st1 st2
  assume h: "cls \<in> set (todayClasses st)
            \<and> find (\<lambda>x. s_name x = subject cls) (subjects st) \<noteq> None
            \<and> st1 = snd (markAttendance pf now1 rnd1 cls s1 st)
            \<and> cls' \<in> set (todayClasses st1) \<and> t_id cls' = t_id cls
            \<and> find (\<lambda>x. s_name x = subject cls') (subjects st1) \<noteq> None
            \<and> st2 = snd (markAttendance pf now2 rnd2 cls' s2 st1)"
  from assms have inv: "pageInv st" by (rule reachable_pageInv)
  from h have c: "cls \<in> set (todayClasses st)"
    and st1: "st1 = snd (markAttendance pf now1 rnd1 cls s1 st)"
    and c': "cls' \<in> set (todayClasses st1)" and same: "t_id cls' = t_id cls"
    and st2: "st2 = snd (markAttendance pf now2 rnd2 cls' s2 st1)"
    by blast+
  from h obtain subj where found: "find (\<lambda>x. s_name x = subject cls) (subjects st) = Some subj"
    by blast
  from h obtain subj' where found': "find (\<lambda>x. s_name x = subject cls') (subjects st1) = Some subj'"
    by blast
  from inv c have shown: "shownFor st cls" by (simp add: pageInv_def)
  have inv1: "pageInv st1" using pageInv_mark[OF inv c] by (simp add: st1)
  have d1: "selectedDate st1 = selectedDate st" by (simp add: st1 selectedDate_mark)
  have ex: "\<exists>r \<in> set (getAttendanceRecords (storage st1)).
                 timetableEntryId r = t_id cls' \<and> date r = selectedDate st1"
    using mark_pair_present[OF found shown, of pf now1 rnd1 s1]
    by (simp add: same st1 selectedDate_mark)
  from second_mark[OF inv1 c' found' ex, of pf now2 rnd2 s2]
  show "\<exists>r. filter (\<lambda>r. timetableEntryId r = t_id cls \<and> date r = selectedDate st)
                        (getAttendanceRecords (storage st2)) = [r] \<and> status r = s2"
    by (simp add: d1[symmetric] same[symmetric] st2)
qed

text \<open>The example page: its class is marked present, then absent.\<close>

lemma one_window_example:
  "reachable demoPlatform demoPage
   \<and> (\<exists>r. filter (\<lambda>r. timetableEntryId r = ''monday-09:00-0-k3x'' \<and> date r = ''2024-01-01'')
            (getAttendanceRecords (storage
               (snd (markAttendance demoPlatform ''1700000000555'' ''zzzzzzzzz''
                  (demoClass (Some ''attendance-1700000000000-q1w2e3r4t'') (Some present))
                  absent demoPage1)))) = [r]
          \<and> status r = absent)"
proof -
  have 1: "demoClass None None \<in> set (todayClasses demoPage)" by (simp add: demoPage_eq)
  have 2: "find (\<lambda>x. s_name x = subject (demoClass None None)) (subjects demoPage) \<noteq> None"
    by (simp add: demoPage_eq demoClass_def demoSubject_def)
  have 3: "demoClass (Some ''attendance-1700000000000-q1w2e3r4t'') (Some present)
             \<in> set (todayClasses demoPage1)" by (simp add: demoPage1_eq)
  have 4: "find (\<lambda>x. s_name x = subject (demoClass (Some ''attendance-1700000000000-q1w2e3r4t'') (Some present)))
             (subjects demoPage1) \<noteq> None"
    by (simp add: demoPage1_eq demoClass_def demoSubject_def)
  have 5: "t_id (demoClass (Some ''attendance-1700000000000-q1w2e3r4t'') (Some present))
             = t_id (demoClass None None)" by (simp add: demoClass_def)
  have 6: "t_id (demoClass None None) = ''monday-09:00-0-k3x''" by (simp add: demoClass_def)
  have 7: "selectedDate demoPage = ''2024-01-01''" by (simp add: demoPage_eq)
  from one_window_one_record_per_pair[OF reachable_demoPage] 1 2 3 4 5
  have "\<exists>r. filter (\<lambda>r. timetableEntryId r = t_id (demoClass None None) \<and> date r = selectedDate demoPage)
            (getAttendanceRecords (storage
               (snd (markAttendance demoPlatform ''1700000000555'' ''zzzzzzzzz''
                  (demoClass (Some ''attendance-1700000000000-q1w2e3r4t'') (Some present))
                  absent demoPage1)))) = [r]
          \<and> status r = absent"
    unfolding demoPage1_def by blast
  then show ?thesis using reachable_demoPage by (simp only: 6 7 simp_thms)
qed

text \<open>
  Claim C2 fails on the code. \<open>markAttendance\<close> reads the stored records afresh, but it
  chooses between updating and inserting by the \<open>attendanceId\<close> that the displayed class
  got when the page last loaded; it does not look the pair up in the records it has just
  read, as \<open>loadAttendanceData\<close> does. In a window whose display is older than the store,
  here the example page after a second window has marked its class present, marking the
  class absent appends a second record for the same pair: the store then holds two records
  for the pair, one present and one absent.
\<close>

theorem C2_stale_page_two_records:
  "demoClass None None \<in> set (todayClasses stalePage)
   \<and> getAttendanceRecords (storage stalePage) = [demoRecord present]
   \<and> filter (\<lambda>r. timetableEntryId r = ''monday-09:00-0-k3x'' \<and> date r = ''2024-01-01'')
        (getAttendanceRecords (storage
           (snd (markAttendance demoPlatform ''1700000000555'' ''zzzzzzzzz''
                   (demoClass None None) absent stalePage))))
      = [demoRecord present,
         \<lparr>a_id = ''attendance-1700000000555-zzzzzzzzz'', subjectId = ''subject-0'',
          date = ''2024-01-01'', status = absent,
          timetableEntryId = ''monday-09:00-0-k3x''\<rparr>]"
proof -
  have st: "stalePage =
      \<lparr>storage = demoStorage\<lparr>attendflow_attendance := Some [demoRecord present]\<rparr>,
       selectedDate = ''2024-01-01'', todayClasses = [demoClass None None],
       subjects = [demoSubject]\<rparr>"
    by (simp add: stalePage_def demoPage_eq demoPage1_eq)
  have rs: "getAttendanceRecords (storage stalePage) = [demoRecord present]"
    by (simp add: st getAttendanceRecords_def demoStorage_def)
  have f: "find (\<lambda>x. s_name x = subject (demoClass None None)) (subjects stalePage)
             = Some demoSubject"
    by (simp add: st demoClass_def demoSubject_def)
  have a: "attendanceId (demoClass None None) = None" by (simp add: demoClass_def)
  have d: "selectedDate stalePage = ''2024-01-01''" by (simp add: st)
  have "getAttendanceRecords (storage
           (snd (markAttendance demoPlatform ''1700000000555'' ''zzzzzzzzz''
                   (demoClass None None) absent stalePage)))
      = [demoRecord present,
         \<lparr>a_id = ''attendance-1700000000555-zzzzzzzzz'', subjectId = ''subject-0'',
          date = ''2024-01-01'', status = absent,
          timetableEntryId = ''monday-09:00-0-k3x''\<rparr>]"
  proof -
    have "getAttendanceRecords (storage
           (snd (markAttendance demoPlatform ''1700000000555'' ''zzzzzzzzz''
                   (demoClass None None) absent stalePage)))
        = getAttendanceRecords (storage stalePage)
          @ [newRecord ''1700000000555'' ''zzzzzzzzz'' demoSubject (demoClass None None)
               absent stalePage]"
      by (simp add: records_mark f a)
    then show ?thesis by (simp add: rs newRecord_def d demoSubject_def demoClass_def)
  qed
  then show ?thesis using rs by (simp add: st demoRecord_def)
qed



lemma mark_step_shape:
  "getAttendanceRecords (storage (snd (markAttendance pf now rnd cls s st))) = getAttendanceRecords (storage st)
   \<or> (\<exists>new. getAttendanceRecords (storage (snd (markAttendance pf now rnd cls s st)))
              = getAttendanceRecords (storage st) @ [new])
   \<or> (\<exists>aid. getAttendanceRecords (storage (snd (markAttendance pf now rnd cls s st)))
              = map (\<lambda>r. if a_id r = aid then r\<lparr>status := s\<rparr> else r)
                  (getAttendanceRecords (storage st)))"
  by (auto simp: records_mark setStatus_def[abs_def] split: option.splits)

lemma mark_keeps_pair:
  assumes "\<exists>r \<in> set (getAttendanceRecords (storage st)). timetableEntryId r = e \<and> date r = d"
  shows "\<exists>r \<in> set (getAttendanceRecords (storage (snd (markAttendance pf now rnd cls s st)))).
           timetableEntryId r = e \<and> date r = d"
proof -
  from assms obtain r where r: "r \<in> set (getAttendanceRecords (storage st))"
    "timetableEntryId r = e" "date r = d" by blast
  have "setStatus aid s r \<in> set (map (setStatus aid s) (getAttendanceRecords (storage st)))
        \<and> timetableEntryId (setStatus aid s r) = e \<and> date (setStatus aid s r) = d" for aid
    using r by (simp add: setStatus_def)
  then have m: "\<exists>x \<in> set (map (setStatus aid s) (getAttendanceRecords (storage st))).
        timetableEntryId x = e \<and> date x = d" for aid by blast
  show ?thesis
    using assms m by (auto simp: records_mark split: option.splits)
qed

lemma markAll_keeps_pair:
  "\<exists>r \<in> set (getAttendanceRecords (storage st)). timetableEntryId r = e \<and> date r = d \<Longrightarrow>
   \<exists>r \<in> set (getAttendanceRecords (storage (markAll pf reqs st))). timetableEntryId r = e \<and> date r = d"
proof (induction reqs arbitrary: st)
  case Nil
  then show ?case by (simp add: markAll_def)
next
  case (Cons q reqs)
  from mark_keeps_pair[OF Cons.prems]
  have "\<exists>r \<in> set (getAttendanceRecords (storage
            (snd (markAttendance pf (m_now q) (m_rnd q) (m_class q) (m_status q) st)))).
          timetableEntryId r = e \<and> date r = d" .
  from Cons.IH[OF this] show ?case by (simp add: markAll_def)
qed

text \<open>
  Claim C9. One call of the mark operation leaves the stored records as they are, or
  appends one record, or sets the status of the records with one id and changes nothing
  else. Hence a pair that has a record still has one after any sequence of mark requests.
\<close>

theorem C9_mark_never_deletes:
  "(getAttendanceRecords (storage (snd (markAttendance pf now rnd cls s st))) = getAttendanceRecords (storage st)
    \<or> (\<exists>new. getAttendanceRecords (storage (snd (markAttendance pf now rnd cls s st)))
              = getAttendanceRecords (storage st) @ [new])
    \<or> (\<exists>aid. getAttendanceRecords (storage (snd (markAttendance pf now rnd cls s st)))
              = map (\<lambda>r. if a_id r = aid then r\<lparr>status := s\<rparr> else r)
                  (getAttendanceRecords (storage st))))
   \<and> ((\<exists>r \<in> set (getAttendanceRecords (storage st)). timetableEntryId r = e \<and> date r = d)
        \<longrightarrow> (\<exists>r \<in> set (getAttendanceRecords (storage (markAll pf reqs st))).
               timetableEntryId r = e \<and> date r = d))"
  using mark_step_shape[of pf now rnd cls s st] markAll_keeps_pair[of st e d pf reqs] by blast

text \<open>The example page after its first mark, followed by two more requests.\<close>

theorem C9_witness:
  "(\<exists>r \<in> set (getAttendanceRecords (storage demoPage1)).
       timetableEntryId r = ''monday-09:00-0-k3x'' \<and> date r = ''2024-01-01'')
   \<and> (\<exists>r \<in> set (getAttendanceRecords (storage (markAll demoPlatform
         [\<lparr>m_now = ''1700000000555'', m_rnd = ''zzzzzzzzz'',
            m_class = demoClass (Some ''attendance-1700000000000-q1w2e3r4t'') (Some present),
            m_status = absent\<rparr>,
          \<lparr>m_now = ''1700000000777'', m_rnd = ''yyyyyyyyy'',
            m_class = demoClass None None, m_status = present\<rparr>] demoPage1))).
       timetableEntryId r = ''monday-09:00-0-k3x'' \<and> date r = ''2024-01-01'')"
proof -
  have h: "\<exists>r \<in> set (getAttendanceRecords (storage demoPage1)).
       timetableEntryId r = ''monday-09:00-0-k3x'' \<and> date r = ''2024-01-01''"
    by (simp add: demoPage1_eq getAttendanceRecords_def demoStorage_def demoRecord_def)
  with C9_mark_never_deletes[of demoPlatform "[]" "[]" "demoClass None None" present demoPage1
         "''monday-09:00-0-k3x''" "''2024-01-01''"]
  show ?thesis by blast
qed

text \<open>
  Claim C10. A call of the mark operation leaves the timetable key, the subjects key and
  the notification flag of the store as they were. When the call finds its subject and
  the class carries a non-empty attendance id, the stored list keeps its length, every
  record with another id is unchanged, and a record with that id gets the new status and
  keeps its id, subject id, date and schedule entry id.
\<close>

theorem C10_mark_frame:
  "attendflow_timetable (storage (snd (markAttendance pf now rnd cls s st)))
      = attendflow_timetable (storage st)
   \<and> attendflow_subjects (storage (snd (markAttendance pf now rnd cls s st)))
      = attendflow_subjects (storage st)
   \<and> notifications_scheduled (storage (snd (markAttendance pf now rnd cls s st)))
      = notifications_scheduled (storage st)
   \<and> (\<forall>aid. find (\<lambda>x. s_name x = subject cls) (subjects st) \<noteq> None
            \<and> attendanceId cls = Some aid \<and> aid \<noteq> [] \<longrightarrow>
        length (getAttendanceRecords (storage (snd (markAttendance pf now rnd cls s st))))
          = length (getAttendanceRecords (storage st))
        \<and> (\<forall>i < length (getAttendanceRecords (storage st)).
             (let r = getAttendanceRecords (storage st) ! i;
                  r' = getAttendanceRecords (storage (snd (markAttendance pf now rnd cls s st))) ! i
              in (a_id r \<noteq> aid \<longrightarrow> r' = r)
               \<and> (a_id r = aid \<longrightarrow> status r' = s)
               \<and> a_id r' = a_id r \<and> subjectId r' = subjectId r \<and> date r' = date r
               \<and> timetableEntryId r' = timetableEntryId r)))"
proof -
  have frame: "attendflow_timetable (storage (snd (markAttendance pf now rnd cls s st)))
      = attendflow_timetable (storage st)
   \<and> attendflow_subjects (storage (snd (markAttendance pf now rnd cls s st)))
      = attendflow_subjects (storage st)
   \<and> notifications_scheduled (storage (snd (markAttendance pf now rnd cls s st)))
      = notifications_scheduled (storage st)"
    by (simp add: mark_cases storage_load saveAttendanceRecords_def split: option.splits)
  have upd: "length (getAttendanceRecords (storage (snd (markAttendance pf now rnd cls s st))))
          = length (getAttendanceRecords (storage st))
        \<and> (\<forall>i < length (getAttendanceRecords (storage st)).
             (let r = getAttendanceRecords (storage st) ! i;
                  r' = getAttendanceRecords (storage (snd (markAttendance pf now rnd cls s st))) ! i
              in (a_id r \<noteq> aid \<longrightarrow> r' = r)
               \<and> (a_id r = aid \<longrightarrow> status r' = s)
               \<and> a_id r' = a_id r \<and> subjectId r' = subjectId r \<and> date r' = date r
               \<and> timetableEntryId r' = timetableEntryId r))"
    if "find (\<lambda>x. s_name x = subject cls) (subjects st) \<noteq> None"
       "attendanceId cls = Some aid" "aid \<noteq> []" for aid
    using that by (auto simp: records_mark setStatus_def Let_def)
  show ?thesis using frame upd by blast
qed

text \<open>The example page after its first mark: the one record goes from present to
  absent and the timetable stays.\<close>

theorem C10_witness:
  "find (\<lambda>x. s_name x = subject (demoClass (Some ''attendance-1700000000000-q1w2e3r4t'') (Some present)))
      (subjects demoPage1) \<noteq> None
   \<and> getAttendanceRecords (storage demoPage1) = [demoRecord present]
   \<and> getAttendanceRecords (storage (snd (markAttendance demoPlatform ''1700000000555'' ''zzzzzzzzz''
         (demoClass (Some ''attendance-1700000000000-q1w2e3r4t'') (Some present)) absent demoPage1)))
      = [demoRecord absent]
   \<and> attendflow_timetable (storage (snd (markAttendance demoPlatform ''1700000000555'' ''zzzzzzzzz''
         (demoClass (Some ''attendance-1700000000000-q1w2e3r4t'') (Some present)) absent demoPage1)))
      = Some [demoEntry]"
proof -
  let ?c = "demoClass (Some ''attendance-1700000000000-q1w2e3r4t'') (Some present)"
  let ?st' = "snd (markAttendance demoPlatform ''1700000000555'' ''zzzzzzzzz'' ?c absent demoPage1)"
  have f: "find (\<lambda>x. s_name x = subject ?c) (subjects demoPage1) \<noteq> None"
    by (simp add: demoPage1_eq demoClass_def demoSubject_def)
  have a: "attendanceId ?c = Some ''attendance-1700000000000-q1w2e3r4t''"
    by (simp add: demoClass_def)
  have rs: "getAttendanceRecords (storage demoPage1) = [demoRecord present]"
    by (simp add: demoPage1_eq getAttendanceRecords_def demoStorage_def)
  have tt: "attendflow_timetable (storage demoPage1) = Some [demoEntry]"
    by (simp add: demoPage1_eq demoStorage_def)
  from C10_mark_frame[of demoPlatform "''1700000000555''" "''zzzzzzzzz''" ?c absent demoPage1] f a
  have len: "length (getAttendanceRecords (storage ?st')) = length (getAttendanceRecords (storage demoPage1))"
    and el: "\<forall>i < length (getAttendanceRecords (storage demoPage1)).
             (let r = getAttendanceRecords (storage demoPage1) ! i;
                  r' = getAttendanceRecords (storage ?st') ! i
              in (a_id r \<noteq> ''attendance-1700000000000-q1w2e3r4t'' \<longrightarrow> r' = r)
               \<and> (a_id r = ''attendance-1700000000000-q1w2e3r4t'' \<longrightarrow> status r' = absent)
               \<and> a_id r' = a_id r \<and> subjectId r' = subjectId r \<and> date r' = date r
               \<and> timetableEntryId r' = timetableEntryId r)"
    and t: "attendflow_timetable (storage ?st') = attendflow_timetable (storage demoPage1)"
    by simp_all
  from len rs obtain r' where r': "getAttendanceRecords (storage ?st') = [r']"
    by (cases "getAttendanceRecords (storage ?st')") auto
  from el rs r' have "status r' = absent \<and> a_id r' = a_id (demoRecord present)
      \<and> subjectId r' = subjectId (demoRecord present) \<and> date r' = date (demoRecord present)
      \<and> timetableEntryId r' = timetableEntryId (demoRecord present)"
    by (simp add: Let_def demoRecord_def)
  then have "r' = demoRecord absent" by (simp add: demoRecord_def)
  with f rs r' t tt show ?thesis by simp
qed

section \<open>Properties of the regular expressions\<close>

text \<open>The fuel of \<open>rstar\<close> is enough: any amount that is at least the length of the rest
  of the input gives the same result.\<close>

lemma rstar_fuel:
  "length (snd x) \<le> n \<Longrightarrow> length (snd x) \<le> k \<Longrightarrow> rstar n m x = rstar k m x"
proof (induction n arbitrary: x k)
  case 0
  then have e: "snd x = []" by simp
  show ?case
  proof (cases k)
    case 0
    then show ?thesis by simp
  next
    case (Suc j)
    then show ?thesis using e by simp
  qed
next
  case (Suc n)
  show ?case
  proof (cases k)
    case 0
    with Suc.prems have "snd x = []" by simp
    then show ?thesis using 0 by simp
  next
    case (Suc j)
    have "rstar n m y = rstar j m y"
      if "y \<in> set (filter (\<lambda>y. length (snd y) < length (snd x)) (m x))" for y
    proof -
      from that have "length (snd y) < length (snd x)" by simp
      with Suc.prems Suc have "length (snd y) \<le> n" "length (snd y) \<le> j" by simp_all
      then show ?thesis by (rule Suc.IH)
    qed
    then have "map (rstar n m) (filter (\<lambda>y. length (snd y) < length (snd x)) (m x))
             = map (rstar j m) (filter (\<lambda>y. length (snd y) < length (snd x)) (m x))"
      by (intro map_cong) simp_all
    then show ?thesis unfolding Suc rstar.simps by (simp only:)
  qed
qed

section \<open>The example cell, pass by pass\<close>

lemma cell_trim:
  "trim ''Data Science (3102B-BL3-FF) Dr. Smith'' = ''Data Science (3102B-BL3-FF) Dr. Smith''"
  by code_simp

lemma cell_lines:
  "splitRegex newlinesRx ''Data Science (3102B-BL3-FF) Dr. Smith''
     = [''Data Science (3102B-BL3-FF) Dr. Smith'']"
  by code_simp

lemma cell_parts:
  "splitOn CHR '','' ''Data Science (3102B-BL3-FF) Dr. Smith''
     = [''Data Science (3102B-BL3-FF) Dr. Smith'']"
  by code_simp

lemma cell_paren:
  "search False parenRoomRx None ''Data Science (3102B-BL3-FF) Dr. Smith''
     = Some (''Data Science '', ''(3102B-BL3-FF)'', (Some CHR '')'', '' Dr. Smith''))"
  by code_simp

lemma room_trim: "trim ''3102B-BL3-FF'' = ''3102B-BL3-FF''"
  by code_simp

lemma room_valid:
  "search False roomCodeRx None ''3102B-BL3-FF''
     = Some ([], ''3102B-BL3-FF'', (Some CHR ''F'', []))"
  by code_simp

lemma cell_without_paren:
  "replaceAll False parenRoomRx [] None ''Data Science (3102B-BL3-FF) Dr. Smith''
     = ''Data Science  Dr. Smith''"
  by code_simp

lemma clean_trim: "trim ''Data Science  Dr. Smith'' = ''Data Science  Dr. Smith''"
  by code_simp

lemma pass_instructor:
  "replaceAll False instructorRx [] None ''Data Science  Dr. Smith'' = ''Data Science  ''"
  by code_simp

lemma pass_batch: "replaceAll False batchRx [] None ''Data Science  '' = ''Data Science  ''"
  by code_simp

lemma pass_paren: "replaceAll False parenAnyRx [] None ''Data Science  '' = ''Data Science  ''"
  by code_simp

lemma pass_dash:
  "replaceAll False trailingDashRx [] None ''Data Science  '' = ''Data Science  ''"
  by code_simp

lemma pass_spaces:
  "replaceAll False spacesRx '' '' None ''Data Science  '' = ''Data Science ''"
  by code_simp

lemma pass_trim: "trim ''Data Science '' = ''Data Science''"
  by code_simp

lemma pass_surnames:
  "replaceAll True surnamePattern [] None ''Data Science'' = ''Data Science''"
  by code_simp

lemma subject_trim: "trim ''Data Science'' = ''Data Science''"
  by code_simp

lemma pass_letters:
  "replaceAll False singleLetterRx [] None ''Data Science'' = ''Data Science''"
  by code_simp

lemma pass_spaces2:
  "replaceAll False spacesRx '' '' None ''Data Science'' = ''Data Science''"
  by code_simp

lemma pass_punct:
  "replaceAll False trailingPunctRx [] None ''Data Science'' = ''Data Science''"
  by code_simp

lemma extract_example:
  "extractSubjectAndRoom ''Data Science (3102B-BL3-FF) Dr. Smith''
     = (''Data Science'', Some ''3102B-BL3-FF'')"
  unfolding extractSubjectAndRoom_def
  by (simp del: search.simps splitOn.simps tryRoomPatterns.simps
        add: Let_def cell_trim cell_lines cell_parts cell_paren room_trim room_valid
          cell_without_paren clean_trim pass_instructor pass_batch pass_paren pass_dash
          pass_spaces pass_trim pass_surnames subject_trim pass_letters pass_spaces2
          pass_punct)

section \<open>Properties of the grid parser\<close>

lemma hdr_trim:
  "trim ''Time'' = ''Time''" "trim ''Monday'' = ''Monday''" "trim ''Tuesday'' = ''Tuesday''"
  by code_simp+

lemma hdr_time: "timeColumnOf [''Time'', ''Monday'', ''Tuesday''] = 0"
  by code_simp

lemma hdr_days:
  "findDayColumns [''Time'', ''Monday'', ''Tuesday''] 0
     = [\<lparr>name = ''Monday'', index = 1\<rparr>, \<lparr>name = ''Tuesday'', index = 2\<rparr>]"
  by code_simp

lemma cell_time: "trim ''09:00'' = ''09:00''"
  by code_simp

lemma cell_free: "trim ''Free'' = ''Free''" "includesStr (toLowerCase ''Free'') ''free''"
  by code_simp+

lemma cell_subject:
  "includesStr (toLowerCase ''Data Science (3102B-BL3-FF) Dr. Smith'') ''free'' = False"
  "includesStr (toLowerCase ''Data Science (3102B-BL3-FF) Dr. Smith'') ''break'' = False"
  by code_simp+

lemma row_index_text: "numberToString 0 = ''0''"
  by code_simp

lemma example_entries:
  "timetableEntriesOf random 0
     [\<lparr>name = ''Monday'', index = Suc 0\<rparr>, \<lparr>name = ''Tuesday'', index = 2\<rparr>]
     [[''09:00'', ''Data Science (3102B-BL3-FF) Dr. Smith'', ''Free'']]
   = [\<lparr>p_id = ''monday-09:00-0-'' @ random 0, p_day = ''Monday'', p_time = ''09:00'',
       p_subject = ''Data Science'', p_room = Some ''3102B-BL3-FF'', p_batch = None\<rparr>]"
  by (simp add: timetableEntriesOf_def processRow_def processCell_def cellAt_def Let_def
        cell_time cell_free cell_subject cell_trim extract_example lower_Monday row_index_text)

text \<open>
  Claim C4. For the grid whose header row is Time, Monday, Tuesday and whose single data
  row is 09:00, "Data Science (3102B-BL3-FF) Dr. Smith", Free, whatever the batch row
  before the header row and whatever the random id texts, extraction succeeds with exactly
  one entry: day Monday, time 09:00, subject "Data Science", room "3102B-BL3-FF". The
  Tuesday cell gives no entry.
\<close>

theorem C4_example_grid:
  "success (parseExcelTimetable random
      [batchRow, [''Time'', ''Monday'', ''Tuesday''],
       [''09:00'', ''Data Science (3102B-BL3-FF) Dr. Smith'', ''Free'']])
   \<and> data (parseExcelTimetable random
      [batchRow, [''Time'', ''Monday'', ''Tuesday''],
       [''09:00'', ''Data Science (3102B-BL3-FF) Dr. Smith'', ''Free'']])
     = [\<lparr>p_id = ''monday-09:00-0-'' @ random 0, p_day = ''Monday'', p_time = ''09:00'',
         p_subject = ''Data Science'', p_room = Some ''3102B-BL3-FF'', p_batch = None\<rparr>]"
  by (simp add: parseExcelTimetable_def Let_def hdr_trim hdr_time hdr_days example_entries)

text \<open>The two rows of the example alone, with no batch row before them, are rejected
  for their number.\<close>

lemma example_rows_alone:
  "parseExcelTimetable random
      [[''Time'', ''Monday'', ''Tuesday''],
       [''09:00'', ''Data Science (3102B-BL3-FF) Dr. Smith'', ''Free'']]
     = failWith ''Excel file must contain at least 3 rows (batch header, day header, and data)''"
  by (simp add: parseExcelTimetable_def)

text \<open>
  Claim C8 as stated fails: a grid of a batch row and a header row alone has a day column
  and no entry, and extraction fails on it with the error about fewer than three rows,
  not with the error about no valid entries.
\<close>

theorem C8_counterexample:
  "\<not> success (parseExcelTimetable exampleRandom [[''Batch A''], [''Time'', ''Monday'']])
   \<and> findDayColumns (map trim ([[''Batch A''], [''Time'', ''Monday'']] ! 1))
        (timeColumnOf (map trim ([[''Batch A''], [''Time'', ''Monday'']] ! 1))) \<noteq> []
   \<and> errors (parseExcelTimetable exampleRandom [[''Batch A''], [''Time'', ''Monday'']])
        \<noteq> [''No valid timetable entries found. Please check your Excel format.'']"
proof -
  have c: "timeColumnOf [''Time'', ''Monday''] = 0" by code_simp
  have d: "findDayColumns [''Time'', ''Monday''] 0 = [\<lparr>name = ''Monday'', index = 1\<rparr>]"
    by code_simp
  show ?thesis by (simp add: parseExcelTimetable_def failWith_def hdr_trim c d)
qed

text \<open>
  Claim C8, amended. On a grid, extraction succeeds exactly when the grid has at least
  three rows, at least one day column is found among the header cells, and the produced
  entry list is not empty. Each of the three failures has its own error: fewer than three
  rows, no day columns, no valid entries. A success returns the produced entries, which
  are not empty, and no error; a failure returns no entries.
\<close>

theorem C8_failure_cases:
  "(let headers = map trim (rawData ! 1);
        timeColumn = timeColumnOf headers;
        dayColumns = findDayColumns headers timeColumn;
        timetableEntries = timetableEntriesOf random timeColumn dayColumns (drop 2 rawData);
        result = parseExcelTimetable random rawData
    in (success result \<longleftrightarrow>
          3 \<le> length rawData \<and> dayColumns \<noteq> [] \<and> timetableEntries \<noteq> [])
     \<and> (length rawData < 3 \<longrightarrow>
          errors result
            = [''Excel file must contain at least 3 rows (batch header, day header, and data)''])
     \<and> (3 \<le> length rawData \<and> dayColumns = [] \<longrightarrow>
          errors result = [''No day columns found in headers: '' @ join '', '' headers])
     \<and> (3 \<le> length rawData \<and> dayColumns \<noteq> [] \<and> timetableEntries = [] \<longrightarrow>
          errors result = [''No valid timetable entries found. Please check your Excel format.''])
     \<and> (success result \<longrightarrow>
          data result = timetableEntries \<and> data result \<noteq> [] \<and> errors result = [])
     \<and> (\<not> success result \<longrightarrow> data result = []))"
  by (simp add: parseExcelTimetable_def failWith_def Let_def)

text \<open>The grid without data rows fails for its size; the example grid succeeds.\<close>

theorem C8_witness:
  "length headerOnlyGrid < 3
   \<and> errors (parseExcelTimetable exampleRandom headerOnlyGrid)
       = [''Excel file must contain at least 3 rows (batch header, day header, and data)'']
   \<and> \<not> success (parseExcelTimetable exampleRandom headerOnlyGrid)
   \<and> 3 \<le> length exampleGrid
   \<and> success (parseExcelTimetable exampleRandom exampleGrid)
   \<and> data (parseExcelTimetable exampleRandom exampleGrid) \<noteq> []"
proof -
  have s: "length headerOnlyGrid < 3" by (simp add: headerOnlyGrid_def)
  have h: "map trim (exampleGrid ! 1) = [''Time'', ''Monday'', ''Tuesday'']"
    by (simp add: exampleGrid_def hdr_trim)
  have g: "3 \<le> length exampleGrid" by (simp add: exampleGrid_def)
  have d: "drop 2 exampleGrid = [[''09:00'', ''Data Science (3102B-BL3-FF) Dr. Smith'', ''Free'']]"
    by (simp add: exampleGrid_def)
  have ok: "findDayColumns (map trim (exampleGrid ! 1)) (timeColumnOf (map trim (exampleGrid ! 1))) \<noteq> []
    \<and> timetableEntriesOf exampleRandom (timeColumnOf (map trim (exampleGrid ! 1)))
         (findDayColumns (map trim (exampleGrid ! 1)) (timeColumnOf (map trim (exampleGrid ! 1))))
         (drop 2 exampleGrid) \<noteq> []"
    unfolding h d by (simp add: hdr_time hdr_days example_entries)
  from C8_failure_cases[of headerOnlyGrid exampleRandom] s
  have 1: "errors (parseExcelTimetable exampleRandom headerOnlyGrid)
       = [''Excel file must contain at least 3 rows (batch header, day header, and data)'']
     \<and> \<not> success (parseExcelTimetable exampleRandom headerOnlyGrid)"
    by (simp add: Let_def)
  from C8_failure_cases[of exampleGrid exampleRandom] g ok
  have 2: "success (parseExcelTimetable exampleRandom exampleGrid)
     \<and> data (parseExcelTimetable exampleRandom exampleGrid) \<noteq> []"
    unfolding Let_def by blast
  from s g 1 2 show ?thesis by blast
qed

end
